theory Spec2Isabelle
  imports Main
begin

section \<open>Python values used by career\_path\_advisor.py\<close>

text \<open>
  A Python \<open>str\<close> is a sequence of Unicode code points. Code points are natural
  numbers here, so that the characters \<open>str.strip\<close> removes and the non-ASCII
  characters of the printed banners are the ones Python sees. \<open>ascii\<close> turns an
  ASCII literal into its code points.
\<close>

type_synonym str = "nat list"

definition ascii :: "string \<Rightarrow> str" where
  "ascii cs = map of_char cs"

definition nl :: str where
  "nl = [10]"

text \<open>\<open>sep.join(xs)\<close>.\<close>

fun join :: "str \<Rightarrow> str list \<Rightarrow> str" where
  "join sep [] = []"
| "join sep [x] = x"
| "join sep (x # y # ys) = x @ sep @ join sep (y # ys)"

text \<open>\<open>needle in hay\<close> for strings: \<open>needle\<close> occurs as a contiguous piece of \<open>hay\<close>.\<close>

fun is_prefix :: "str \<Rightarrow> str \<Rightarrow> bool" where
  "is_prefix [] hay = True"
| "is_prefix (c # cs) [] = False"
| "is_prefix (c # cs) (d # ds) = (c = d \<and> is_prefix cs ds)"

fun contains :: "str \<Rightarrow> str \<Rightarrow> bool" where
  "contains needle [] = (needle = [])"
| "contains needle (d # ds) = (is_prefix needle (d # ds) \<or> contains needle ds)"

text \<open>
  \<open>str.isspace\<close> on one code point: the characters CPython's
  \<open>Py_UNICODE_ISSPACE\<close> accepts, which are the ones \<open>str.strip()\<close> removes.
\<close>

definition isspace :: "nat \<Rightarrow> bool" where
  "isspace c \<longleftrightarrow>
     (9 \<le> c \<and> c \<le> 13) \<or> (28 \<le> c \<and> c \<le> 32) \<or> c = 133 \<or> c = 160 \<or> c = 5760 \<or>
     (8192 \<le> c \<and> c \<le> 8202) \<or> c = 8232 \<or> c = 8233 \<or> c = 8239 \<or> c = 8287 \<or> c = 12288"

definition strip :: "str \<Rightarrow> str" where
  "strip s = rev (dropWhile isspace (rev (dropWhile isspace s)))"

text \<open>
  Exceptions as values. \<open>Exception m\<close> is an instance of \<open>Exception\<close> or of one of
  its subclasses other than \<open>ValueError\<close>, with \<open>str(e) = m\<close>; \<open>BaseException m\<close> is
  an instance of a class outside \<open>Exception\<close> other than \<open>KeyboardInterrupt\<close>
  (\<open>SystemExit\<close>, \<open>asyncio.CancelledError\<close>).
\<close>

datatype exn =
    KeyboardInterrupt
  | BaseException str
  | Exception str
  | ValueError str

text \<open>\<open>isinstance(e, Exception)\<close>, what \<open>except Exception\<close> tests.\<close>

fun isinstance_Exception :: "exn \<Rightarrow> bool" where
  "isinstance_Exception KeyboardInterrupt = False"
| "isinstance_Exception (BaseException m) = False"
| "isinstance_Exception (Exception m) = True"
| "isinstance_Exception (ValueError m) = True"

text \<open>\<open>str(e)\<close>.\<close>

fun str_of :: "exn \<Rightarrow> str" where
  "str_of KeyboardInterrupt = []"
| "str_of (BaseException m) = m"
| "str_of (Exception m) = m"
| "str_of (ValueError m) = m"

section \<open>Module-level configuration (lines 36--52)\<close>

text \<open>
  \<open>environ\<close> is the process environment after \<open>load_dotenv()\<close> has run.
  \<open>os.getenv(k)\<close> is \<open>environ k\<close>, \<open>None\<close> when the variable is unset.
\<close>

record config =
  AZURE_ENDPOINT :: str
  AZURE_API_KEY :: str
  DEPLOYMENT_NAME :: str
  API_VERSION :: str

definition getenv_default :: "(str \<rightharpoonup> str) \<Rightarrow> str \<Rightarrow> str \<Rightarrow> str" where
  "getenv_default environ k d = (case environ k of None \<Rightarrow> d | Some v \<Rightarrow> v)"

text \<open>Truth value of an \<open>Optional[str]\<close>: \<open>None\<close> and \<open>""\<close> are false.\<close>

fun truthy :: "str option \<Rightarrow> bool" where
  "truthy None = False"
| "truthy (Some v) = (v \<noteq> [])"

definition endpoint_missing :: str where
  "endpoint_missing = ascii ''AZURE_OPENAI_ENDPOINT not found in .env file''"

definition api_key_missing :: str where
  "api_key_missing = ascii ''AZURE_OPENAI_API_KEY not found in .env file''"

definition deployment_missing :: str where
  "deployment_missing = ascii ''AZURE_OPENAI_DEPLOYMENT_NAME not found in .env file''"

definition default_api_version :: str where
  "default_api_version = ascii ''2025-01-01-preview''"

definition module_config :: "(str \<rightharpoonup> str) \<Rightarrow> exn + config" where
  "module_config environ =
     (let endpoint = environ (ascii ''AZURE_OPENAI_ENDPOINT'');
          api_key = environ (ascii ''AZURE_OPENAI_API_KEY'');
          deployment = environ (ascii ''AZURE_OPENAI_DEPLOYMENT_NAME'');
          version = getenv_default environ (ascii ''AZURE_OPENAI_API_VERSION'') default_api_version
      in if \<not> truthy endpoint then Inl (ValueError endpoint_missing)
         else if \<not> truthy api_key then Inl (ValueError api_key_missing)
         else if \<not> truthy deployment then Inl (ValueError deployment_missing)
         else Inr \<lparr>AZURE_ENDPOINT = the endpoint, AZURE_API_KEY = the api_key,
                   DEPLOYMENT_NAME = the deployment, API_VERSION = version\<rparr>)"

section \<open>The world outside the program\<close>

text \<open>
  The three agents, the console, the event loop's timer and the Microsoft Learn tool are
  external collaborators. Each external call is answered by the world, which may return a
  value or raise; the answer may depend on everything that happened before (the history)
  and on the argument. Every external call, every invocation of a workflow method and every
  write to \<open>self.context\<close> is logged, in order, with its outcome.
\<close>

datatype agent = ProfileAgent | ResearchAgent | AdvisorAgent

datatype workflow = Gather_profile | Research_learning_path | Create_roadmap | Cleanup_mcp

datatype pyval = EmptyDict | EmptyList | Str str

datatype event =
    Construct str "str list"
  | Print str
  | Input str "exn + str"
  | AgentRun agent str "exn + str"
  | Invoke workflow "str list"
  | SetContext str pyval
  | Sleep "exn + unit"
  | McpClose "exn + unit"
  | McpAexit "exn + unit"

record world =
  stdin :: "event list \<Rightarrow> str \<Rightarrow> exn + str"
  agent_run :: "event list \<Rightarrow> agent \<Rightarrow> str \<Rightarrow> exn + str"
  asyncio_sleep :: "event list \<Rightarrow> exn + unit"
  hasattr_close :: bool
  mcp_close :: "event list \<Rightarrow> exn + unit"
  hasattr_aexit :: bool
  mcp_aexit :: "event list \<Rightarrow> exn + unit"

text \<open>
  The \<open>CareerPathAdvisor\<close> object (\<open>self._profile_context\<close>, \<open>self.context\<close>)
  together with the log.
\<close>

record state =
  profile_context :: "str list"
  self_context :: "str \<rightharpoonup> pyval"
  trace :: "event list"

definition emit :: "event \<Rightarrow> state \<Rightarrow> state" where
  "emit ev s = s\<lparr>trace := trace s @ [ev]\<rparr>"

definition input :: "world \<Rightarrow> str \<Rightarrow> state \<Rightarrow> (exn + str) \<times> state" where
  "input w prompt s = (let r = stdin w (trace s) prompt in (r, emit (Input prompt r) s))"

definition run_agent :: "world \<Rightarrow> agent \<Rightarrow> str \<Rightarrow> state \<Rightarrow> (exn + str) \<times> state" where
  "run_agent w a query s = (let r = agent_run w (trace s) a query in (r, emit (AgentRun a query r) s))"

definition sleep :: "world \<Rightarrow> state \<Rightarrow> (exn + unit) \<times> state" where
  "sleep w s = (let r = asyncio_sleep w (trace s) in (r, emit (Sleep r) s))"

definition close :: "world \<Rightarrow> state \<Rightarrow> (exn + unit) \<times> state" where
  "close w s = (let r = mcp_close w (trace s) in (r, emit (McpClose r) s))"

definition aexit :: "world \<Rightarrow> state \<Rightarrow> (exn + unit) \<times> state" where
  "aexit w s = (let r = mcp_aexit w (trace s) in (r, emit (McpAexit r) s))"

section \<open>class CareerPathAdvisor\<close>

text \<open>
  \<open>__init__\<close> (lines 69--108). The constructors of the agent framework are taken to
  return; the instruction texts of the agents configure the external model and are not
  part of the orchestration.
\<close>

definition init :: "config \<Rightarrow> state" where
  "init cfg =
     \<lparr>profile_context = [],
      self_context = [ascii ''user_profile'' \<mapsto> EmptyDict,
                      ascii ''learning_resources'' \<mapsto> EmptyList,
                      ascii ''career_roadmap'' \<mapsto> Str []],
      trace = [Construct (ascii ''AzureOpenAIChatClient'')
                 [DEPLOYMENT_NAME cfg, AZURE_ENDPOINT cfg, AZURE_API_KEY cfg, API_VERSION cfg],
               Construct (ascii ''MCPStreamableHTTPTool'')
                 [ascii ''microsoft_learn'', ascii ''https://learn.microsoft.com/api/mcp''],
               Construct (ascii ''ChatAgent'') [ascii ''ProfileAgent''],
               Construct (ascii ''ChatAgent'') [ascii ''ResearchAgent''],
               Construct (ascii ''ChatAgent'') [ascii ''AdvisorAgent'']]\<rparr>"

text \<open>\<open>gather_profile\<close> (lines 285--308).\<close>

definition gather_profile :: "world \<Rightarrow> str \<Rightarrow> state \<Rightarrow> (exn + str) \<times> state" where
  "gather_profile w user_input s0 =
     (let s1 = emit (Invoke Gather_profile [user_input]) s0;
          s2 = emit (Print (nl @ ascii ''[1/3] UNDERSTANDING YOUR GOALS...'')) s1;
          s3 = s2\<lparr>profile_context := profile_context s2 @ [ascii ''User: '' @ user_input]\<rparr>;
          full_context = join nl (profile_context s3)
      in case run_agent w ProfileAgent full_context s3 of
           (Inl e, s4) \<Rightarrow> (Inl e, s4)
         | (Inr text, s4) \<Rightarrow>
             (Inr text, s4\<lparr>profile_context := profile_context s4 @ [ascii ''Agent: '' @ text]\<rparr>))"

text \<open>\<open>research_learning_path\<close> (lines 310--333).\<close>

definition research_query :: "str \<Rightarrow> str" where
  "research_query profile =
     nl @ ascii ''User Profile:'' @ nl @ profile @ nl @ nl
     @ ascii ''Search Microsoft Learn for learning resources, courses, certifications, and labs '' @ nl
     @ ascii ''that match this career goal and experience level.'' @ nl
     @ ascii ''        ''"

definition research_learning_path :: "world \<Rightarrow> str \<Rightarrow> state \<Rightarrow> (exn + str) \<times> state" where
  "research_learning_path w profile s0 =
     (let s1 = emit (Invoke Research_learning_path [profile]) s0;
          s2 = emit (Print (nl @ ascii ''[2/3] FINDING LEARNING RESOURCES...'')) s1
      in run_agent w ResearchAgent (research_query profile) s2)"

text \<open>\<open>create_roadmap\<close> (lines 335--361).\<close>

definition roadmap_query :: "str \<Rightarrow> str \<Rightarrow> str" where
  "roadmap_query profile resources =
     nl @ ascii ''USER PROFILE:'' @ nl @ profile @ nl @ nl
     @ ascii ''AVAILABLE RESOURCES:'' @ nl @ resources @ nl @ nl
     @ ascii ''Create a personalized learning roadmap with realistic timelines.'' @ nl
     @ ascii ''        ''"

definition create_roadmap :: "world \<Rightarrow> str \<Rightarrow> str \<Rightarrow> state \<Rightarrow> (exn + str) \<times> state" where
  "create_roadmap w profile resources s0 =
     (let s1 = emit (Invoke Create_roadmap [profile, resources]) s0;
          s2 = emit (Print (nl @ ascii ''[3/3] CREATING YOUR PERSONALIZED ROADMAP...'')) s1
      in run_agent w AdvisorAgent (roadmap_query profile resources) s2)"

text \<open>
  \<open>_cleanup_mcp\<close> (lines 363--381): the body of the \<open>try\<close>, then the handler
  \<open>except Exception: pass\<close>.
\<close>

definition cleanup_try :: "world \<Rightarrow> state \<Rightarrow> (exn + unit) \<times> state" where
  "cleanup_try w s0 =
     (case sleep w s0 of
        (Inl e, s1) \<Rightarrow> (Inl e, s1)
      | (Inr u, s1) \<Rightarrow>
          if hasattr_close w then close w s1
          else if hasattr_aexit w then aexit w s1
          else (Inr (), s1))"

definition cleanup_mcp :: "world \<Rightarrow> state \<Rightarrow> (exn + unit) \<times> state" where
  "cleanup_mcp w s0 =
     (case cleanup_try w (emit (Invoke Cleanup_mcp []) s0) of
        (Inl e, s1) \<Rightarrow> if isinstance_Exception e then (Inr (), s1) else (Inl e, s1)
      | (Inr u, s1) \<Rightarrow> (Inr (), s1))"

section \<open>run\_interactive\_session (lines 388--451)\<close>

definition PROFILE_COMPLETE :: str where
  "PROFILE_COMPLETE = ascii ''PROFILE_COMPLETE''"

definition first_prompt :: str where
  "first_prompt = ascii ''What tech career are you interested in? ''"

definition follow_up_prompt :: str where
  "follow_up_prompt = nl @ ascii ''> ''"

definition rule70 :: str where
  "rule70 = replicate 70 61"

text \<open>
  The local variables of the session that the loop reads and writes.
  \<open>profile_response\<close> is unbound (\<open>None\<close>) until the first reply is assigned.
\<close>

record locals =
  user_input :: str
  profile_text :: str
  profile_response :: "str option"

text \<open>
  The loop \<open>for i in range(5)\<close> (lines 410--423), with the number of iterations that
  remain as its counter; the loop variable \<open>i\<close> is not used by the body. The two
  \<open>break\<close>s leave the loop with the locals as they are.
\<close>

fun profile_loop :: "world \<Rightarrow> nat \<Rightarrow> locals \<Rightarrow> state \<Rightarrow> (exn + locals) \<times> state" where
  "profile_loop w 0 l s = (Inr l, s)"
| "profile_loop w (Suc n) l s =
     (case gather_profile w (user_input l) s of
        (Inl e, s1) \<Rightarrow> (Inl e, s1)
      | (Inr reply, s1) \<Rightarrow>
          (let l1 = l\<lparr>profile_response := Some reply\<rparr>;
               s2 = emit (Print (nl @ reply)) s1
           in if contains PROFILE_COMPLETE reply
              then (Inr (l1\<lparr>profile_text := reply\<rparr>), s2)
              else (case input w follow_up_prompt s2 of
                      (Inl e, s3) \<Rightarrow> (Inl e, s3)
                    | (Inr line, s3) \<Rightarrow>
                        (let l2 = l1\<lparr>user_input := line\<rparr>
                         in if strip line = [] then (Inr l2, s3)
                            else profile_loop w n l2 s3))))"

text \<open>
  The fallback after the loop (lines 426--427). Reading an unbound local raises
  \<open>UnboundLocalError\<close>, a subclass of \<open>Exception\<close>.
\<close>

definition fallback :: "locals \<Rightarrow> exn + str" where
  "fallback l =
     (if profile_text l = []
      then (case profile_response l of
              None \<Rightarrow> Inl (Exception (ascii ''UnboundLocalError''))
            | Some reply \<Rightarrow> Inr reply)
      else Inr (profile_text l))"

definition set_context :: "str \<Rightarrow> pyval \<Rightarrow> state \<Rightarrow> state" where
  "set_context k v s = emit (SetContext k v) (s\<lparr>self_context := (self_context s)(k \<mapsto> v)\<rparr>)"

definition welcome_banner :: "state \<Rightarrow> state" where
  "welcome_banner s =
     emit (Print (nl @ ascii ''Let'' @ [39] @ ascii ''s plan your tech career journey!'' @ nl))
       (emit (Print rule70)
         (emit (Print ([127919] @ ascii '' CAREER PATH ADVISOR - Powered by Microsoft Learn''))
           (emit (Print (nl @ rule70)) s)))"

definition success_banner :: "state \<Rightarrow> state" where
  "success_banner s =
     emit (Print (nl @ [128161] @ ascii '' Tip: Bookmark the resource links and start with Phase 1!''))
       (emit (Print rule70)
         (emit (Print ([9989] @ ascii '' YOUR PERSONALIZED LEARNING PATH IS READY!''))
           (emit (Print (nl @ rule70)) s)))"

definition run_interactive_session :: "world \<Rightarrow> state \<Rightarrow> (exn + unit) \<times> state" where
  "run_interactive_session w s0 =
     (case input w first_prompt (welcome_banner s0) of
        (Inl e, s1) \<Rightarrow> (Inl e, s1)
      | (Inr line, s1) \<Rightarrow>
     (case profile_loop w 5 \<lparr>user_input = line, profile_text = [], profile_response = None\<rparr> s1 of
        (Inl e, s2) \<Rightarrow> (Inl e, s2)
      | (Inr l, s2) \<Rightarrow>
     (case fallback l of
        Inl e \<Rightarrow> (Inl e, s2)
      | Inr profile \<Rightarrow>
     (case research_learning_path w profile (set_context (ascii ''user_profile'') (Str profile) s2) of
        (Inl e, s3) \<Rightarrow> (Inl e, s3)
      | (Inr learning_resources, s3) \<Rightarrow>
     (case create_roadmap w profile learning_resources
             (set_context (ascii ''learning_resources'') (Str learning_resources)
                (emit (Print (nl @ learning_resources)) s3)) of
        (Inl e, s4) \<Rightarrow> (Inl e, s4)
      | (Inr career_roadmap, s4) \<Rightarrow>
          cleanup_mcp w
            (success_banner (set_context (ascii ''career_roadmap'') (Str career_roadmap)
                        (emit (Print (nl @ career_roadmap)) s4))))))))"

section \<open>Program entry point (lines 458--483)\<close>

definition farewell :: str where
  "farewell = nl @ nl @ [128075] @ ascii '' Good luck on your learning journey!''"

definition error_report :: "exn \<Rightarrow> str" where
  "error_report e = nl @ [10060] @ ascii '' Error: '' @ str_of e"

text \<open>
  \<open>main\<close>: the advisor object is local to \<open>main\<close>; what the caller gets is whether
  \<open>main\<close> returned (\<open>None\<close>) or raised, and what happened is in the log.
\<close>

definition main :: "config \<Rightarrow> world \<Rightarrow> (exn + unit) \<times> event list" where
  "main cfg w =
     (case run_interactive_session w (init cfg) of
        (Inr u, s) \<Rightarrow> (Inr (), trace s)
      | (Inl e, s) \<Rightarrow>
          if e = KeyboardInterrupt then (Inr (), trace (emit (Print farewell) s))
          else if isinstance_Exception e then (Inr (), trace (emit (Print (error_report e)) s))
          else (Inl e, trace s))"

text \<open>
  Running the file as a script: the module-level statements, then
  \<open>asyncio.run(main())\<close>.
\<close>

definition script :: "(str \<rightharpoonup> str) \<Rightarrow> world \<Rightarrow> (exn + unit) \<times> event list" where
  "script environ w =
     (case module_config environ of
        Inl e \<Rightarrow> (Inl e, [])
      | Inr cfg \<Rightarrow> main cfg w)"

section \<open>Reading the log\<close>

text \<open>The exception an external call raised, if it raised one.\<close>

fun raised :: "event \<Rightarrow> exn option" where
  "raised (Input p (Inl e)) = Some e"
| "raised (AgentRun a q (Inl e)) = Some e"
| "raised (Sleep (Inl e)) = Some e"
| "raised (McpClose (Inl e)) = Some e"
| "raised (McpAexit (Inl e)) = Some e"
| "raised ev = None"

text \<open>The events that \<open>_cleanup_mcp\<close> logs: its invocation, the pause and the release.\<close>

fun in_cleanup :: "event \<Rightarrow> bool" where
  "in_cleanup (Invoke Cleanup_mcp a) = True"
| "in_cleanup (Sleep r) = True"
| "in_cleanup (McpClose r) = True"
| "in_cleanup (McpAexit r) = True"
| "in_cleanup ev = False"

text \<open>
  The exception of an event that no handler around the call catches: every exception
  raised in the stages, and inside \<open>_cleanup_mcp\<close> the ones that are not instances of
  \<open>Exception\<close>.
\<close>

definition uncaught :: "event \<Rightarrow> exn option" where
  "uncaught ev =
     (case raised ev of
        None \<Rightarrow> None
      | Some e \<Rightarrow> if in_cleanup ev \<and> isinstance_Exception e then None else Some e)"

text \<open>No event of the list raised an exception that was not caught on the spot.\<close>

definition quiet :: "event list \<Rightarrow> bool" where
  "quiet evs = list_all (\<lambda>ev. uncaught ev = None) evs"

text \<open>
  A block of events that ended with the result \<open>r\<close>: no event before the last one raised
  an exception that was not caught, and the block raised \<open>e\<close> exactly when its last event
  did.
\<close>

definition abrupt :: "event list \<Rightarrow> exn + 'a \<Rightarrow> bool" where
  "abrupt evs r =
     (case r of
        Inr v \<Rightarrow> quiet evs
      | Inl e \<Rightarrow> evs \<noteq> [] \<and> quiet (butlast evs) \<and> uncaught (last evs) = Some e)"

text \<open>Invocations of \<open>gather_profile\<close>, and requests to the Profile Agent.\<close>

fun is_gather_call :: "event \<Rightarrow> bool" where
  "is_gather_call (Invoke Gather_profile a) = True"
| "is_gather_call ev = False"

fun is_profile_request :: "event \<Rightarrow> bool" where
  "is_profile_request (AgentRun ProfileAgent q r) = True"
| "is_profile_request ev = False"

text \<open>The replies of the Profile Agent, in the order of the log.\<close>

fun profile_reply :: "event \<Rightarrow> str option" where
  "profile_reply (AgentRun ProfileAgent q (Inr reply)) = Some reply"
| "profile_reply ev = None"

primrec profile_replies :: "event list \<Rightarrow> str list" where
  "profile_replies [] = []"
| "profile_replies (ev # evs) =
     (case profile_reply ev of None \<Rightarrow> profile_replies evs | Some r \<Rightarrow> r # profile_replies evs)"

text \<open>
  The events of the profile-collection loop: progress and reply prints, invocations of
  \<open>gather_profile\<close>, Profile Agent runs and inputs at the follow-up prompt.
\<close>

fun profile_stage :: "event \<Rightarrow> bool" where
  "profile_stage (Print t) = True"
| "profile_stage (Invoke Gather_profile a) = True"
| "profile_stage (AgentRun ProfileAgent q r) = True"
| "profile_stage (Input p r) = (p = follow_up_prompt)"
| "profile_stage ev = False"

text \<open>
  The pipeline stage of a call: 1 for the Profile Collector, 2 for the Resource Researcher,
  3 for the Roadmap Synthesizer. \<open>stages\<close> lists the stages of the calls of a log in
  order.
\<close>

fun stage_of :: "event \<Rightarrow> nat option" where
  "stage_of (Invoke Gather_profile a) = Some 1"
| "stage_of (AgentRun ProfileAgent q r) = Some 1"
| "stage_of (Invoke Research_learning_path a) = Some 2"
| "stage_of (AgentRun ResearchAgent q r) = Some 2"
| "stage_of (Invoke Create_roadmap a) = Some 3"
| "stage_of (AgentRun AdvisorAgent q r) = Some 3"
| "stage_of ev = None"

primrec stages :: "event list \<Rightarrow> nat list" where
  "stages [] = []"
| "stages (ev # evs) = (case stage_of ev of None \<Rightarrow> stages evs | Some k \<Rightarrow> k # stages evs)"

text \<open>Invocations of \<open>research_learning_path\<close> and of \<open>create_roadmap\<close>.\<close>

fun is_research_call :: "event \<Rightarrow> bool" where
  "is_research_call (Invoke Research_learning_path a) = True"
| "is_research_call ev = False"

fun is_roadmap_call :: "event \<Rightarrow> bool" where
  "is_roadmap_call (Invoke Create_roadmap a) = True"
| "is_roadmap_call ev = False"

text \<open>Anything the Roadmap Synthesizer does: its invocation and the Advisor Agent run.\<close>

fun is_roadmap_event :: "event \<Rightarrow> bool" where
  "is_roadmap_event (Invoke Create_roadmap a) = True"
| "is_roadmap_event (AgentRun AdvisorAgent q r) = True"
| "is_roadmap_event ev = False"

text \<open>An input at the follow-up prompt that returned an empty or whitespace-only line.\<close>

fun blank_follow_up :: "event \<Rightarrow> bool" where
  "blank_follow_up (Input p (Inr line)) = (p = follow_up_prompt \<and> strip line = [])"
| "blank_follow_up ev = False"

text \<open>An input at the first prompt.\<close>

fun is_first_input :: "event \<Rightarrow> bool" where
  "is_first_input (Input p i) = (p = first_prompt)"
| "is_first_input ev = False"

section \<open>The logs a session can produce\<close>

text \<open>
  The events that the parts of a session add to the log, given the outcomes of the external
  calls: one call of \<open>gather_profile\<close> on the transcript \<open>pc\<close>, the welcome banner,
  the research stage, the roadmap stage, and the end of a successful session.
\<close>

definition gather_header :: str where
  "gather_header = nl @ ascii ''[1/3] UNDERSTANDING YOUR GOALS...''"

definition gather_events :: "str list \<Rightarrow> str \<Rightarrow> exn + str \<Rightarrow> event list" where
  "gather_events pc u r =
     [Invoke Gather_profile [u], Print gather_header,
      AgentRun ProfileAgent (join nl (pc @ [ascii ''User: '' @ u])) r]"

definition banner_events :: "event list" where
  "banner_events =
     [Print (nl @ rule70),
      Print ([127919] @ ascii '' CAREER PATH ADVISOR - Powered by Microsoft Learn''),
      Print rule70,
      Print (nl @ ascii ''Let'' @ [39] @ ascii ''s plan your tech career journey!'' @ nl)]"

definition research_events :: "str \<Rightarrow> exn + str \<Rightarrow> event list" where
  "research_events p r =
     [SetContext (ascii ''user_profile'') (Str p),
      Invoke Research_learning_path [p],
      Print (nl @ ascii ''[2/3] FINDING LEARNING RESOURCES...''),
      AgentRun ResearchAgent (research_query p) r]"

definition roadmap_events :: "str \<Rightarrow> str \<Rightarrow> exn + str \<Rightarrow> event list" where
  "roadmap_events p res r =
     [Print (nl @ res),
      SetContext (ascii ''learning_resources'') (Str res),
      Invoke Create_roadmap [p, res],
      Print (nl @ ascii ''[3/3] CREATING YOUR PERSONALIZED ROADMAP...''),
      AgentRun AdvisorAgent (roadmap_query p res) r]"

definition finish_events :: "str \<Rightarrow> event list" where
  "finish_events rm =
     [Print (nl @ rm),
      SetContext (ascii ''career_roadmap'') (Str rm),
      Print (nl @ rule70),
      Print ([9989] @ ascii '' YOUR PERSONALIZED LEARNING PATH IS READY!''),
      Print rule70,
      Print (nl @ [128161] @ ascii '' Tip: Bookmark the resource links and start with Phase 1!'')]"

text \<open>The two transcript entries of one exchange.\<close>

definition exchange :: "str \<Rightarrow> str \<Rightarrow> str list" where
  "exchange u reply = [ascii ''User: '' @ u, ascii ''Agent: '' @ reply]"

text \<open>
  The logs the loop can produce with \<open>n\<close> iterations left, the locals \<open>l\<close> and the
  transcript \<open>pc\<close>, together with its result: one rule for each way an iteration ends.
\<close>

inductive loop_trace :: "nat \<Rightarrow> locals \<Rightarrow> str list \<Rightarrow> event list \<Rightarrow> exn + locals \<Rightarrow> bool" where
  lt_zero: "loop_trace 0 l pc [] (Inr l)"
| lt_gather_raised: "loop_trace (Suc n) l pc (gather_events pc (user_input l) (Inl e)) (Inl e)"
| lt_complete: "contains PROFILE_COMPLETE reply \<Longrightarrow>
     loop_trace (Suc n) l pc (gather_events pc (user_input l) (Inr reply) @ [Print (nl @ reply)])
       (Inr (l\<lparr>profile_response := Some reply, profile_text := reply\<rparr>))"
| lt_input_raised: "\<not> contains PROFILE_COMPLETE reply \<Longrightarrow>
     loop_trace (Suc n) l pc
       (gather_events pc (user_input l) (Inr reply) @ [Print (nl @ reply), Input follow_up_prompt (Inl e)])
       (Inl e)"
| lt_blank: "\<not> contains PROFILE_COMPLETE reply \<Longrightarrow> strip line = [] \<Longrightarrow>
     loop_trace (Suc n) l pc
       (gather_events pc (user_input l) (Inr reply) @ [Print (nl @ reply), Input follow_up_prompt (Inr line)])
       (Inr (l\<lparr>profile_response := Some reply, user_input := line\<rparr>))"
| lt_continue: "\<not> contains PROFILE_COMPLETE reply \<Longrightarrow> strip line \<noteq> [] \<Longrightarrow>
     loop_trace n (l\<lparr>profile_response := Some reply, user_input := line\<rparr>)
       (pc @ exchange (user_input l) reply) L rl \<Longrightarrow>
     loop_trace (Suc n) l pc
       (gather_events pc (user_input l) (Inr reply) @ [Print (nl @ reply), Input follow_up_prompt (Inr line)] @ L)
       rl"

text \<open>The handler \<open>except Exception: pass\<close> applied to the outcome of the \<open>try\<close> body.\<close>

fun swallow :: "exn + unit \<Rightarrow> exn + unit" where
  "swallow (Inl e) = (if isinstance_Exception e then Inr () else Inl e)"
| "swallow (Inr u) = Inr ()"

text \<open>The logs of \<open>_cleanup_mcp\<close>, with its result.\<close>

inductive cleanup_trace :: "event list \<Rightarrow> exn + unit \<Rightarrow> bool" where
  ct_sleep_raised: "cleanup_trace [Invoke Cleanup_mcp [], Sleep (Inl e)] (swallow (Inl e))"
| ct_close: "cleanup_trace [Invoke Cleanup_mcp [], Sleep (Inr ()), McpClose r] (swallow r)"
| ct_aexit: "cleanup_trace [Invoke Cleanup_mcp [], Sleep (Inr ()), McpAexit r] (swallow r)"
| ct_neither: "cleanup_trace [Invoke Cleanup_mcp [], Sleep (Inr ())] (Inr ())"

text \<open>The locals when the loop starts.\<close>

definition fresh_locals :: "str \<Rightarrow> locals" where
  "fresh_locals line = \<lparr>user_input = line, profile_text = [], profile_response = None\<rparr>"

text \<open>
  The logs of \<open>run_interactive_session\<close> started with the transcript \<open>pc\<close>, with
  its result: one rule for each place where the session can end.
\<close>

inductive session_trace :: "str list \<Rightarrow> event list \<Rightarrow> exn + unit \<Rightarrow> bool" where
  st_input_raised:
    "session_trace pc (banner_events @ [Input first_prompt (Inl e)]) (Inl e)"
| st_loop_raised:
    "loop_trace 5 (fresh_locals line) pc L (Inl e) \<Longrightarrow>
     session_trace pc (banner_events @ [Input first_prompt (Inr line)] @ L) (Inl e)"
| st_research_raised:
    "loop_trace 5 (fresh_locals line) pc L (Inr l) \<Longrightarrow> fallback l = Inr p \<Longrightarrow>
     session_trace pc
       (banner_events @ [Input first_prompt (Inr line)] @ L @ research_events p (Inl e)) (Inl e)"
| st_roadmap_raised:
    "loop_trace 5 (fresh_locals line) pc L (Inr l) \<Longrightarrow> fallback l = Inr p \<Longrightarrow>
     session_trace pc
       (banner_events @ [Input first_prompt (Inr line)] @ L @ research_events p (Inr res)
          @ roadmap_events p res (Inl e)) (Inl e)"
| st_finished:
    "loop_trace 5 (fresh_locals line) pc L (Inr l) \<Longrightarrow> fallback l = Inr p \<Longrightarrow>
     cleanup_trace K r \<Longrightarrow>
     session_trace pc
       (banner_events @ [Input first_prompt (Inr line)] @ L @ research_events p (Inr res)
          @ roadmap_events p res (Inr rm) @ finish_events rm @ K) r"

text \<open>The constructions that \<open>__init__\<close> logs.\<close>

definition init_events :: "config \<Rightarrow> event list" where
  "init_events cfg = trace (init cfg)"

text \<open>What the handlers of \<open>main\<close> print, and what \<open>main\<close> returns or raises.\<close>

fun top_level_events :: "exn + unit \<Rightarrow> event list" where
  "top_level_events (Inr u) = []"
| "top_level_events (Inl e) =
     (if e = KeyboardInterrupt then [Print farewell]
      else if isinstance_Exception e then [Print (error_report e)]
      else [])"

fun top_level_result :: "exn + unit \<Rightarrow> exn + unit" where
  "top_level_result (Inr u) = Inr ()"
| "top_level_result (Inl e) =
     (if e = KeyboardInterrupt \<or> isinstance_Exception e then Inr () else Inl e)"

section \<open>Sequences of exchanges\<close>

text \<open>
  \<open>n\<close> consecutive exchanges with the Profile Collector: \<open>gather_profile\<close> is called
  once for each utterance, in order, as the session loop does; an exception ends the
  sequence. The replies are returned.
\<close>

fun exchanges :: "world \<Rightarrow> str list \<Rightarrow> state \<Rightarrow> (exn + str list) \<times> state" where
  "exchanges w [] s = (Inr [], s)"
| "exchanges w (u # us) s =
     (case gather_profile w u s of
        (Inl e, s1) \<Rightarrow> (Inl e, s1)
      | (Inr reply, s1) \<Rightarrow>
          (case exchanges w us s1 of
             (Inl e, s2) \<Rightarrow> (Inl e, s2)
           | (Inr replies, s2) \<Rightarrow> (Inr (reply # replies), s2)))"

section \<open>Concrete worlds\<close>

text \<open>A configuration, some lines a human may type, and some replies of the agents.\<close>

definition cfg0 :: config where
  "cfg0 = \<lparr>AZURE_ENDPOINT = ascii ''https://example.openai.azure.com/'',
            AZURE_API_KEY = ascii ''secret'',
            DEPLOYMENT_NAME = ascii ''gpt-4o'',
            API_VERSION = default_api_version\<rparr>"

definition goal_line :: str where
  "goal_line = ascii ''cloud developer''"

definition blank_line :: str where
  "blank_line = ascii ''   ''"

definition question :: str where
  "question = ascii ''What is your current experience level?''"

definition complete_reply :: str where
  "complete_reply = ascii ''PROFILE_COMPLETE'' @ nl @ ascii ''- Goal: cloud developer''"

definition resources_reply :: str where
  "resources_reply = ascii ''RESOURCE: Azure Fundamentals''"

definition roadmap_reply :: str where
  "roadmap_reply = ascii ''**YOUR CAREER PATH: Cloud Developer**''"

text \<open>A world in which every call succeeds and the first reply is complete.\<close>

definition world_complete :: world where
  "world_complete =
     \<lparr>stdin = (\<lambda>h p. Inr goal_line),
      agent_run = (\<lambda>h a q. case a of ProfileAgent \<Rightarrow> Inr complete_reply
                                | ResearchAgent \<Rightarrow> Inr resources_reply
                                | AdvisorAgent \<Rightarrow> Inr roadmap_reply),
      asyncio_sleep = (\<lambda>h. Inr ()),
      hasattr_close = True, mcp_close = (\<lambda>h. Inr ()),
      hasattr_aexit = True, mcp_aexit = (\<lambda>h. Inr ())\<rparr>"

text \<open>The log of a release that succeeds, and the log of the run in that world.\<close>

definition cleanup_ok :: "event list" where
  "cleanup_ok = [Invoke Cleanup_mcp [], Sleep (Inr ()), McpClose (Inr ())]"

definition trace_complete :: "event list" where
  "trace_complete =
     init_events cfg0 @ banner_events @ [Input first_prompt (Inr goal_line)]
     @ gather_events [] goal_line (Inr complete_reply) @ [Print (nl @ complete_reply)]
     @ research_events complete_reply (Inr resources_reply)
     @ roadmap_events complete_reply resources_reply (Inr roadmap_reply)
     @ finish_events roadmap_reply @ cleanup_ok"

text \<open>The log of the run with a complete first reply, around the research call and around the roadmap call.\<close>

definition pre_research :: "event list" where
  "pre_research =
     init_events cfg0 @ banner_events @ [Input first_prompt (Inr goal_line)]
     @ gather_events [] goal_line (Inr complete_reply) @ [Print (nl @ complete_reply)]
     @ [SetContext (ascii ''user_profile'') (Str complete_reply)]"

definition post_research :: "event list" where
  "post_research =
     [Print (nl @ ascii ''[2/3] FINDING LEARNING RESOURCES...''),
      AgentRun ResearchAgent (research_query complete_reply) (Inr resources_reply)]
     @ roadmap_events complete_reply resources_reply (Inr roadmap_reply)
     @ finish_events roadmap_reply @ cleanup_ok"



text \<open>
  A world in which the human names a goal, the Profile Agent asks a question, and the human
  answers the follow-up prompt with a whitespace-only line.
\<close>

definition world_blank :: world where
  "world_blank =
     \<lparr>stdin = (\<lambda>h p. if p = first_prompt then Inr goal_line else Inr blank_line),
      agent_run = (\<lambda>h a q. case a of ProfileAgent \<Rightarrow> Inr question
                                | ResearchAgent \<Rightarrow> Inr resources_reply
                                | AdvisorAgent \<Rightarrow> Inr roadmap_reply),
      asyncio_sleep = (\<lambda>h. Inr ()),
      hasattr_close = True, mcp_close = (\<lambda>h. Inr ()),
      hasattr_aexit = True, mcp_aexit = (\<lambda>h. Inr ())\<rparr>"

text \<open>The log of that run, before and after the blank follow-up line.\<close>

definition pre_blank :: "event list" where
  "pre_blank =
     init_events cfg0 @ banner_events @ [Input first_prompt (Inr goal_line)]
     @ gather_events [] goal_line (Inr question) @ [Print (nl @ question)]"

definition post_blank :: "event list" where
  "post_blank =
     research_events question (Inr resources_reply)
     @ roadmap_events question resources_reply (Inr roadmap_reply)
     @ finish_events roadmap_reply @ cleanup_ok"

text \<open>The log of the run that ends on a blank line, around the research call.\<close>

definition pre_fallback :: "event list" where
  "pre_fallback =
     pre_blank @ [Input follow_up_prompt (Inr blank_line),
                  SetContext (ascii ''user_profile'') (Str question)]"

definition post_fallback :: "event list" where
  "post_fallback =
     [Print (nl @ ascii ''[2/3] FINDING LEARNING RESOURCES...''),
      AgentRun ResearchAgent (research_query question) (Inr resources_reply)]
     @ roadmap_events question resources_reply (Inr roadmap_reply)
     @ finish_events roadmap_reply @ cleanup_ok"

text \<open>A world in which the human only ever enters whitespace.\<close>

definition world_silent :: world where
  "world_silent =
     \<lparr>stdin = (\<lambda>h p. Inr blank_line),
      agent_run = (\<lambda>h a q. case a of ProfileAgent \<Rightarrow> Inr question
                                | ResearchAgent \<Rightarrow> Inr resources_reply
                                | AdvisorAgent \<Rightarrow> Inr roadmap_reply),
      asyncio_sleep = (\<lambda>h. Inr ()),
      hasattr_close = True, mcp_close = (\<lambda>h. Inr ()),
      hasattr_aexit = True, mcp_aexit = (\<lambda>h. Inr ())\<rparr>"

text \<open>The log of that run after the first input.\<close>

definition post_silent :: "event list" where
  "post_silent =
     gather_events [] blank_line (Inr question)
     @ [Print (nl @ question), Input follow_up_prompt (Inr blank_line)]
     @ post_blank"

text \<open>A world in which the Profile Agent never completes and the human always answers.\<close>

definition world_chatty :: world where
  "world_chatty =
     \<lparr>stdin = (\<lambda>h p. Inr goal_line),
      agent_run = (\<lambda>h a q. case a of ProfileAgent \<Rightarrow> Inr question
                                | ResearchAgent \<Rightarrow> Inr resources_reply
                                | AdvisorAgent \<Rightarrow> Inr roadmap_reply),
      asyncio_sleep = (\<lambda>h. Inr ()),
      hasattr_close = True, mcp_close = (\<lambda>h. Inr ()),
      hasattr_aexit = True, mcp_aexit = (\<lambda>h. Inr ())\<rparr>"

text \<open>Errors of the release and of the model.\<close>

definition already_closed :: exn where
  "already_closed = Exception (ascii ''connection already closed'')"

definition network_down :: exn where
  "network_down = Exception (ascii ''network is unreachable'')"

definition model_timeout :: exn where
  "model_timeout = Exception (ascii ''request timed out'')"

text \<open>Three worlds for the release of the search tool: the connection is already closed;
  the tool has no \<open>close\<close> and its \<open>__aexit__\<close> fails on the network; the tool has neither
  method.\<close>

definition world_closed :: world where
  "world_closed = world_complete\<lparr>mcp_close := (\<lambda>h. Inl already_closed)\<rparr>"

definition world_unreachable :: world where
  "world_unreachable =
     world_complete\<lparr>hasattr_close := False, mcp_aexit := (\<lambda>h. Inl network_down)\<rparr>"

definition world_bare :: world where
  "world_bare = world_complete\<lparr>hasattr_close := False, hasattr_aexit := False\<rparr>"

text \<open>A world in which the Research Agent times out.\<close>

definition world_timeout :: world where
  "world_timeout =
     world_complete\<lparr>agent_run := (\<lambda>h a q. case a of ProfileAgent \<Rightarrow> Inr complete_reply
                                              | ResearchAgent \<Rightarrow> Inl model_timeout
                                              | AdvisorAgent \<Rightarrow> Inr roadmap_reply)\<rparr>"

text \<open>The log of that run before the failing request.\<close>

definition pre_timeout :: "event list" where
  "pre_timeout =
     pre_research @ [Invoke Research_learning_path [complete_reply],
                     Print (nl @ ascii ''[2/3] FINDING LEARNING RESOURCES...'')]"

text \<open>A world in which the human presses Ctrl+C while the Profile Agent is awaited.\<close>

definition world_interrupt :: world where
  "world_interrupt = world_complete\<lparr>agent_run := (\<lambda>h a q. Inl KeyboardInterrupt)\<rparr>"

text \<open>The log of that run before the interrupted request, and that request.\<close>

definition pre_interrupt :: "event list" where
  "pre_interrupt =
     init_events cfg0 @ banner_events @ [Input first_prompt (Inr goal_line)]
     @ [Invoke Gather_profile [goal_line], Print gather_header]"

definition interrupted_run :: event where
  "interrupted_run = AgentRun ProfileAgent (ascii ''User: '' @ goal_line) (Inl KeyboardInterrupt)"

text \<open>A world in which Ctrl+C arrives while the connection is being closed.\<close>

definition world_late_interrupt :: world where
  "world_late_interrupt = world_complete\<lparr>mcp_close := (\<lambda>h. Inl KeyboardInterrupt)\<rparr>"

text \<open>The log of that run before the interrupted \<open>close\<close>.\<close>

definition pre_late_interrupt :: "event list" where
  "pre_late_interrupt =
     init_events cfg0 @ banner_events @ [Input first_prompt (Inr goal_line)]
     @ gather_events [] goal_line (Inr complete_reply) @ [Print (nl @ complete_reply)]
     @ research_events complete_reply (Inr resources_reply)
     @ roadmap_events complete_reply resources_reply (Inr roadmap_reply)
     @ finish_events roadmap_reply @ [Invoke Cleanup_mcp [], Sleep (Inr ())]"

text \<open>
  Four environments: nothing is set; the API key is set to the empty string; the deployment
  name is missing; the three required settings are present and the API version is unset.
\<close>

definition environ_empty :: "str \<rightharpoonup> str" where
  "environ_empty = Map.empty"

definition environ_blank_key :: "str \<rightharpoonup> str" where
  "environ_blank_key =
     [ascii ''AZURE_OPENAI_ENDPOINT'' \<mapsto> ascii ''https://example.openai.azure.com/'',
      ascii ''AZURE_OPENAI_API_KEY'' \<mapsto> []]"

definition environ_no_deployment :: "str \<rightharpoonup> str" where
  "environ_no_deployment =
     [ascii ''AZURE_OPENAI_ENDPOINT'' \<mapsto> ascii ''https://example.openai.azure.com/'',
      ascii ''AZURE_OPENAI_API_KEY'' \<mapsto> ascii ''secret'']"

definition environ_ok :: "str \<rightharpoonup> str" where
  "environ_ok =
     [ascii ''AZURE_OPENAI_ENDPOINT'' \<mapsto> ascii ''https://example.openai.azure.com/'',
      ascii ''AZURE_OPENAI_API_KEY'' \<mapsto> ascii ''secret'',
      ascii ''AZURE_OPENAI_DEPLOYMENT_NAME'' \<mapsto> ascii ''gpt-4o'']"

text \<open>
  A cancellation, as the event loop delivers it to an awaiting coroutine:
  \<open>asyncio.CancelledError\<close> derives from \<open>BaseException\<close>, not from \<open>Exception\<close>.
\<close>

definition cancelled :: exn where
  "cancelled = BaseException (ascii ''CancelledError'')"

text \<open>A world in which the task is cancelled while the connection is being closed.\<close>

definition world_cancelled_close :: world where
  "world_cancelled_close = world_complete\<lparr>mcp_close := (\<lambda>h. Inl cancelled)\<rparr>"

text \<open>A world in which the task is cancelled while the Research Agent is awaited.\<close>

definition world_cancelled_research :: world where
  "world_cancelled_research =
     world_complete\<lparr>agent_run := (\<lambda>h a q. case a of ProfileAgent \<Rightarrow> Inr complete_reply
                                              | ResearchAgent \<Rightarrow> Inl cancelled
                                              | AdvisorAgent \<Rightarrow> Inr roadmap_reply)\<rparr>"

section \<open>Every run follows the trace grammar\<close>

subsection \<open>What each method adds to the log\<close>

lemma trace_emit [simp]: "trace (emit ev s) = trace s @ [ev]"
  and profile_context_emit [simp]: "profile_context (emit ev s) = profile_context s"
  and self_context_emit [simp]: "self_context (emit ev s) = self_context s"
  by (simp_all add: emit_def)

lemma input_eq: "input w p s = (r, s') \<Longrightarrow> s' = emit (Input p r) s"
  by (auto simp: input_def Let_def)

lemma run_agent_eq: "run_agent w a q s = (r, s') \<Longrightarrow> s' = emit (AgentRun a q r) s"
  by (auto simp: run_agent_def Let_def)

lemma gather_profile_trace:
  assumes "gather_profile w u s = (r, s')"
  shows "trace s' = trace s @ gather_events (profile_context s) u r"
  using assms
  by (auto simp: gather_profile_def Let_def gather_events_def gather_header_def run_agent_def
      split: sum.splits)

lemma gather_profile_context:
  assumes "gather_profile w u s = (r, s')"
  shows "profile_context s' =
           profile_context s @ (case r of Inl e \<Rightarrow> [ascii ''User: '' @ u] | Inr reply \<Rightarrow> exchange u reply)"
    and "self_context s' = self_context s"
  using assms
  by (auto simp: gather_profile_def Let_def exchange_def run_agent_def split: sum.splits)

lemma profile_loop_trace:
  "profile_loop w n l s = (rl, s') \<Longrightarrow>
     \<exists>L. trace s' = trace s @ L \<and> loop_trace n l (profile_context s) L rl"
proof (induction n arbitrary: l s)
  case 0
  then show ?case by (auto intro: lt_zero)
next
  case (Suc n)
  obtain g s1 where g: "gather_profile w (user_input l) s = (g, s1)"
    by (cases "gather_profile w (user_input l) s")
  note t1 = gather_profile_trace[OF g]
  note c1 = gather_profile_context(1)[OF g]
  show ?case
  proof (cases g)
    case (Inl e)
    with Suc.prems g t1 show ?thesis by (auto intro: lt_gather_raised)
  next
    case (Inr reply)
    show ?thesis
    proof (cases "contains PROFILE_COMPLETE reply")
      case True
      with Suc.prems g Inr t1 show ?thesis
        by (auto simp: Let_def intro!: lt_complete)
    next
      case False
      obtain i s3 where i: "input w follow_up_prompt (emit (Print (nl @ reply)) s1) = (i, s3)"
        by (cases "input w follow_up_prompt (emit (Print (nl @ reply)) s1)")
      note t3 = input_eq[OF i]
      show ?thesis
      proof (cases i)
        case (Inl e)
        with Suc.prems g Inr False i t1 t3 show ?thesis
          by (auto simp: Let_def intro!: lt_input_raised)
      next
        case line: (Inr line)
        show ?thesis
        proof (cases "strip line = []")
          case True
          with Suc.prems g Inr False i line t1 t3 show ?thesis
            by (auto simp: Let_def intro!: lt_blank)
        next
          case nb: False
          from Suc.prems g Inr False i line nb
          have "profile_loop w n (l\<lparr>profile_response := Some reply, user_input := line\<rparr>) s3 = (rl, s')"
            by (simp add: Let_def)
          from Suc.IH[OF this] obtain L where
            L: "trace s' = trace s3 @ L"
               "loop_trace n (l\<lparr>profile_response := Some reply, user_input := line\<rparr>)
                  (profile_context s3) L rl"
            by blast
          from c1 t3 Inr have "profile_context s3 = profile_context s @ exchange (user_input l) reply"
            by simp
          with lt_continue[OF False nb] L(2)
          have "loop_trace (Suc n) l (profile_context s)
                  (gather_events (profile_context s) (user_input l) (Inr reply)
                    @ [Print (nl @ reply), Input follow_up_prompt (Inr line)] @ L) rl"
            by simp
          with L(1) t1 t3 Inr line show ?thesis
            by auto
        qed
      qed
    qed
  qed
qed

subsection \<open>Facts about the logs of the loop\<close>

lemma profile_replies_append [simp]:
  "profile_replies (xs @ ys) = profile_replies xs @ profile_replies ys"
  by (induction xs) (auto split: option.splits)

lemma gather_events_filters [simp]:
  "filter is_gather_call (gather_events pc u r) = [Invoke Gather_profile [u]]"
  "length (filter is_profile_request (gather_events pc u r)) = 1"
  "profile_replies (gather_events pc u r) = (case r of Inl e \<Rightarrow> [] | Inr reply \<Rightarrow> [reply])"
  "\<forall>ev\<in>set (gather_events pc u r). profile_stage ev"
  by (auto simp: gather_events_def split: sum.splits)

lemma loop_trace_count:
  "loop_trace n l pc L rl \<Longrightarrow>
     length (filter is_gather_call L) \<le> n \<and> length (filter is_profile_request L) \<le> n"
  by (induction rule: loop_trace.induct) auto

lemma loop_trace_stage:
  "loop_trace n l pc L rl \<Longrightarrow> \<forall>ev\<in>set L. profile_stage ev"
  by (induction rule: loop_trace.induct) auto

lemma loop_trace_replies:
  "loop_trace n l pc L rl \<Longrightarrow> rl = Inr l' \<Longrightarrow>
     (\<forall>r\<in>set (butlast (profile_replies L)). \<not> contains PROFILE_COMPLETE r) \<and>
     profile_response l' =
       (if profile_replies L = [] then profile_response l else Some (last (profile_replies L))) \<and>
     profile_text l' =
       (if profile_replies L \<noteq> [] \<and> contains PROFILE_COMPLETE (last (profile_replies L))
        then last (profile_replies L) else profile_text l)"
  by (induction arbitrary: l' rule: loop_trace.induct) auto

lemma loop_trace_nonempty:
  "loop_trace (Suc n) l pc L (Inr l') \<Longrightarrow> profile_replies L \<noteq> []"
  by (erule loop_trace.cases) auto

subsection \<open>The cleanup, the stages and the whole session\<close>

lemma sleep_eq: "sleep w s = (r, s') \<Longrightarrow> s' = emit (Sleep r) s"
  by (auto simp: sleep_def Let_def)

lemma close_eq: "close w s = (r, s') \<Longrightarrow> s' = emit (McpClose r) s"
  by (auto simp: close_def Let_def)

lemma aexit_eq: "aexit w s = (r, s') \<Longrightarrow> s' = emit (McpAexit r) s"
  by (auto simp: aexit_def Let_def)

lemma cleanup_mcp_trace:
  assumes "cleanup_mcp w s = (r, s')"
  shows "\<exists>K. trace s' = trace s @ K \<and> cleanup_trace K r"
proof -
  let ?s0 = "emit (Invoke Cleanup_mcp []) s"
  obtain o1 s1 where sl: "sleep w ?s0 = (o1, s1)" by (cases "sleep w ?s0")
  note e1 = sleep_eq[OF sl]
  show ?thesis
  proof (cases o1)
    case (Inl e)
    with assms sl e1 ct_sleep_raised[of e] show ?thesis
      by (auto simp: cleanup_mcp_def cleanup_try_def split: if_splits)
  next
    case (Inr u)
    show ?thesis
    proof (cases "hasattr_close w")
      case True
      obtain o2 s2 where cl: "close w s1 = (o2, s2)" by (cases "close w s1")
      note e2 = close_eq[OF cl]
      from assms sl Inr True cl e1 e2 ct_close[of o2] show ?thesis
        by (cases o2) (auto simp: cleanup_mcp_def cleanup_try_def split: if_splits)
    next
      case False
      show ?thesis
      proof (cases "hasattr_aexit w")
        case True
        obtain o2 s2 where cl: "aexit w s1 = (o2, s2)" by (cases "aexit w s1")
        note e2 = aexit_eq[OF cl]
        from assms sl Inr True False cl e1 e2 ct_aexit[of o2] show ?thesis
          by (cases o2) (auto simp: cleanup_mcp_def cleanup_try_def split: if_splits)
      next
        case nx: False
        from assms sl Inr False nx e1 ct_neither show ?thesis
          by (auto simp: cleanup_mcp_def cleanup_try_def split: if_splits)
      qed
    qed
  qed
qed

lemma research_learning_path_trace:
  assumes "research_learning_path w p (set_context (ascii ''user_profile'') (Str p) s) = (r, s')"
  shows "trace s' = trace s @ research_events p r"
  using assms
  by (auto simp: research_learning_path_def research_events_def set_context_def Let_def
      dest!: run_agent_eq)

lemma create_roadmap_trace:
  assumes "create_roadmap w p res
             (set_context (ascii ''learning_resources'') (Str res) (emit (Print (nl @ res)) s)) = (r, s')"
  shows "trace s' = trace s @ roadmap_events p res r"
  using assms
  by (auto simp: create_roadmap_def roadmap_events_def set_context_def Let_def
      dest!: run_agent_eq)

lemma finish_trace:
  "trace (success_banner (set_context (ascii ''career_roadmap'') (Str rm) (emit (Print (nl @ rm)) s)))
     = trace s @ finish_events rm"
  by (simp add: success_banner_def set_context_def finish_events_def)

lemma welcome_trace: "trace (welcome_banner s) = trace s @ banner_events"
  and welcome_context: "profile_context (welcome_banner s) = profile_context s"
  by (simp_all add: welcome_banner_def banner_events_def)

lemma loop_fallback:
  assumes "loop_trace (Suc n) l0 pc L (Inr l)" and "profile_text l0 = []"
  shows "fallback l = Inr (last (profile_replies L))"
proof -
  from loop_trace_nonempty[OF assms(1)] have ne: "profile_replies L \<noteq> []" .
  from loop_trace_replies[OF assms(1) refl] ne assms(2)
  have "profile_response l = Some (last (profile_replies L))"
    and "profile_text l = [] \<or> profile_text l = last (profile_replies L)"
    by (auto split: if_splits)
  then show ?thesis by (auto simp: fallback_def)
qed

lemma five_Suc: "(5::nat) = Suc 4"
  by simp

lemma run_interactive_session_trace:
  assumes "run_interactive_session w s = (r, s')"
  shows "\<exists>T. trace s' = trace s @ T \<and> session_trace (profile_context s) T r"
proof -
  obtain i0 s1 where i0: "input w first_prompt (welcome_banner s) = (i0, s1)"
    by (cases "input w first_prompt (welcome_banner s)")
  have t1: "trace s1 = trace s @ banner_events @ [Input first_prompt i0]"
    and c1: "profile_context s1 = profile_context s"
    using input_eq[OF i0] by (simp_all add: welcome_trace welcome_context)
  show ?thesis
  proof (cases i0)
    case (Inl e)
    with assms i0 t1 st_input_raised[of "profile_context s" e] show ?thesis
      by (auto simp: run_interactive_session_def)
  next
    case line: (Inr line)
    obtain rl s2 where lp: "profile_loop w 5 (fresh_locals line) s1 = (rl, s2)"
      by (cases "profile_loop w 5 (fresh_locals line) s1")
    from profile_loop_trace[OF lp] c1 obtain L where
      t2: "trace s2 = trace s1 @ L" and
      L: "loop_trace 5 (fresh_locals line) (profile_context s) L rl"
      by auto
    from assms i0 line lp
    have rest: "(case rl of Inl e \<Rightarrow> (Inl e, s2) | Inr l \<Rightarrow>
        (case fallback l of
        Inl e \<Rightarrow> (Inl e, s2)
      | Inr profile \<Rightarrow>
     (case research_learning_path w profile (set_context (ascii ''user_profile'') (Str profile) s2) of
        (Inl e, s3) \<Rightarrow> (Inl e, s3)
      | (Inr learning_resources, s3) \<Rightarrow>
     (case create_roadmap w profile learning_resources
             (set_context (ascii ''learning_resources'') (Str learning_resources)
                (emit (Print (nl @ learning_resources)) s3)) of
        (Inl e, s4) \<Rightarrow> (Inl e, s4)
      | (Inr career_roadmap, s4) \<Rightarrow>
          cleanup_mcp w
            (success_banner (set_context (ascii ''career_roadmap'') (Str career_roadmap)
                        (emit (Print (nl @ career_roadmap)) s4))))))) = (r, s')"
      by (simp add: run_interactive_session_def fresh_locals_def)
    show ?thesis
    proof (cases rl)
      case (Inl e)
      with rest t1 t2 line st_loop_raised[of line "profile_context s" L e] L show ?thesis
        by auto
    next
      case l: (Inr l)
      from L l have fb: "fallback l = Inr (last (profile_replies L))"
        by (intro loop_fallback[of 4 "fresh_locals line"]) (simp_all add: five_Suc[symmetric] fresh_locals_def)
      define p where "p = last (profile_replies L)"
      obtain r2 s3 where rs: "research_learning_path w p (set_context (ascii ''user_profile'') (Str p) s2) = (r2, s3)"
        by (cases "research_learning_path w p (set_context (ascii ''user_profile'') (Str p) s2)")
      note t3 = research_learning_path_trace[OF rs]
      show ?thesis
      proof (cases r2)
        case (Inl e)
        with rest l fb rs t1 t2 t3 line
          st_research_raised[of line "profile_context s" L l p e] L show ?thesis
          by (auto simp: p_def)
      next
        case res: (Inr res)
        let ?s3' = "set_context (ascii ''learning_resources'') (Str res) (emit (Print (nl @ res)) s3)"
        obtain r3 s4 where cr: "create_roadmap w p res ?s3' = (r3, s4)"
          by (cases "create_roadmap w p res ?s3'")
        note t4 = create_roadmap_trace[OF cr]
        show ?thesis
        proof (cases r3)
          case (Inl e)
          with rest l fb rs res cr t1 t2 t3 t4 line
            st_roadmap_raised[of line "profile_context s" L l p res e] L show ?thesis
            by (auto simp: p_def)
        next
          case rm: (Inr rm)
          let ?s4' = "success_banner (set_context (ascii ''career_roadmap'') (Str rm) (emit (Print (nl @ rm)) s4))"
          from rest l fb rs res cr rm have cl: "cleanup_mcp w ?s4' = (r, s')"
            by (simp add: p_def)
          from cleanup_mcp_trace[OF cl] obtain K where
            t5: "trace s' = trace ?s4' @ K" and K: "cleanup_trace K r" by blast
          from st_finished[OF _ _ K, of line "profile_context s" L l p res rm] L l fb
          have "session_trace (profile_context s)
                  (banner_events @ [Input first_prompt (Inr line)] @ L @ research_events p (Inr res)
                    @ roadmap_events p res (Inr rm) @ finish_events rm @ K) r"
            by (simp add: p_def)
          moreover from t1 t2 t3 t4 t5 line res rm
          have "trace s' = trace s @ banner_events @ [Input first_prompt (Inr line)] @ L
                  @ research_events p (Inr res) @ roadmap_events p res (Inr rm) @ finish_events rm @ K"
            by (simp add: finish_trace)
          ultimately show ?thesis by blast
        qed
      qed
    qed
  qed
qed

lemma main_trace:
  assumes "main cfg w = (r, tr)"
  shows "\<exists>T rs. session_trace [] T rs \<and> tr = init_events cfg @ T @ top_level_events rs
           \<and> r = top_level_result rs"
proof -
  obtain rs s' where run: "run_interactive_session w (init cfg) = (rs, s')"
    by (cases "run_interactive_session w (init cfg)")
  from run_interactive_session_trace[OF run] obtain T where
    T: "trace s' = init_events cfg @ T" "session_trace [] T rs"
    by (auto simp: init_events_def init_def)
  from assms run T(1) have "tr = init_events cfg @ T @ top_level_events rs \<and> r = top_level_result rs"
    by (cases rs) (auto simp: main_def split: if_splits)
  with T(2) show ?thesis by blast
qed

subsection \<open>Locating an event in a log\<close>

lemma split_cases:
  assumes "xs @ ys = pre @ ev # post"
  shows "(\<exists>post'. xs = pre @ ev # post' \<and> post = post' @ ys) \<or>
         (\<exists>pre'. ys = pre' @ ev # post \<and> pre = xs @ pre')"
  using assms by (auto simp: append_eq_append_conv2 append_eq_Cons_conv Cons_eq_append_conv)

lemma split_right:
  assumes "xs @ ys = pre @ ev # post" and "P ev" and "\<forall>z\<in>set xs. \<not> P z"
  shows "\<exists>pre'. ys = pre' @ ev # post \<and> pre = xs @ pre'"
  using split_cases[OF assms(1)] assms(2,3) by auto

lemma split_left:
  assumes "xs @ ys = pre @ ev # post" and "P ev" and "\<forall>z\<in>set ys. \<not> P z"
  shows "\<exists>post'. xs = pre @ ev # post' \<and> post = post' @ ys"
  using split_cases[OF assms(1)] assms(2,3) by auto

lemma split_unique:
  assumes "xs @ x # ys = pre @ ev # post" and "P ev"
    and "\<forall>z\<in>set xs. \<not> P z" and "\<forall>z\<in>set ys. \<not> P z"
  shows "pre = xs \<and> ev = x \<and> post = ys"
proof -
  from split_right[OF assms(1), of P] assms(2,3) obtain pre' where
    p: "x # ys = pre' @ ev # post" "pre = xs @ pre'" by blast
  from p(1) assms(2,4) have "pre' = []"
    by (cases pre') auto
  with p show ?thesis by simp
qed

lemma no_event: "xs = pre @ ev # post \<Longrightarrow> P ev \<Longrightarrow> \<forall>z\<in>set xs. \<not> P z \<Longrightarrow> False"
  by auto

(* segment facts *)

subsection \<open>Calls and stages in the parts of a log\<close>

lemma stages_append [simp]: "stages (xs @ ys) = stages xs @ stages ys"
  by (induction xs) (auto split: option.splits)

lemma cleanup_trace_events:
  "cleanup_trace K r \<Longrightarrow> \<forall>ev\<in>set K. in_cleanup ev"
  by (erule cleanup_trace.cases) auto

lemma in_cleanup_not [simp]:
  "in_cleanup ev \<Longrightarrow> \<not> is_gather_call ev"
  "in_cleanup ev \<Longrightarrow> \<not> is_profile_request ev"
  "in_cleanup ev \<Longrightarrow> \<not> is_research_call ev"
  "in_cleanup ev \<Longrightarrow> \<not> is_roadmap_call ev"
  "in_cleanup ev \<Longrightarrow> stage_of ev = None"
  "in_cleanup ev \<Longrightarrow> profile_reply ev = None"
  by (cases ev rule: in_cleanup.cases; simp)+

lemma profile_stage_not [simp]:
  "profile_stage ev \<Longrightarrow> \<not> is_research_call ev"
  "profile_stage ev \<Longrightarrow> \<not> is_roadmap_call ev"
  "profile_stage ev \<Longrightarrow> \<not> in_cleanup ev"
  by (cases ev rule: profile_stage.cases; simp)+

lemma filter_empty_if: "\<forall>z\<in>set xs. \<not> P z \<Longrightarrow> filter P xs = []"
  by (induction xs) auto

lemma stages_none: "\<forall>z\<in>set xs. stage_of z = None \<Longrightarrow> stages xs = []"
  by (induction xs) auto

lemma replies_none: "\<forall>z\<in>set xs. profile_reply z = None \<Longrightarrow> profile_replies xs = []"
  by (induction xs) auto

lemma init_events_simps [simp]:
  "filter is_gather_call (init_events cfg) = []"
  "filter is_profile_request (init_events cfg) = []"
  "stages (init_events cfg) = []"
  "profile_replies (init_events cfg) = []"
  "\<forall>z\<in>set (init_events cfg). \<not> is_research_call z \<and> \<not> is_roadmap_call z"
  by (simp_all add: init_events_def init_def)

lemma banner_events_simps [simp]:
  "filter is_gather_call banner_events = []"
  "filter is_profile_request banner_events = []"
  "stages banner_events = []"
  "profile_replies banner_events = []"
  "\<forall>z\<in>set banner_events. \<not> is_research_call z \<and> \<not> is_roadmap_call z"
  by (simp_all add: banner_events_def)

lemma research_events_simps [simp]:
  "filter is_gather_call (research_events p r) = []"
  "filter is_profile_request (research_events p r) = []"
  "stages (research_events p r) = [2, 2]"
  "profile_replies (research_events p r) = []"
  "\<forall>z\<in>set (research_events p r). \<not> is_roadmap_call z"
  by (simp_all add: research_events_def)

lemma roadmap_events_simps [simp]:
  "filter is_gather_call (roadmap_events p res r) = []"
  "filter is_profile_request (roadmap_events p res r) = []"
  "stages (roadmap_events p res r) = [3, 3]"
  "profile_replies (roadmap_events p res r) = []"
  "\<forall>z\<in>set (roadmap_events p res r). \<not> is_research_call z"
  by (simp_all add: roadmap_events_def)

lemma finish_events_simps [simp]:
  "filter is_gather_call (finish_events rm) = []"
  "filter is_profile_request (finish_events rm) = []"
  "stages (finish_events rm) = []"
  "profile_replies (finish_events rm) = []"
  "\<forall>z\<in>set (finish_events rm). \<not> is_research_call z \<and> \<not> is_roadmap_call z"
  by (simp_all add: finish_events_def)

lemma top_level_events_simps [simp]:
  "filter is_gather_call (top_level_events rs) = []"
  "filter is_profile_request (top_level_events rs) = []"
  "stages (top_level_events rs) = []"
  "profile_replies (top_level_events rs) = []"
  "\<forall>z\<in>set (top_level_events rs). \<not> is_research_call z \<and> \<not> is_roadmap_call z"
  by (cases rs; simp)+

lemma cleanup_trace_simps:
  assumes "cleanup_trace K r"
  shows "filter is_gather_call K = []"
    and "filter is_profile_request K = []"
    and "stages K = []"
    and "profile_replies K = []"
    and "\<forall>z\<in>set K. \<not> is_research_call z \<and> \<not> is_roadmap_call z"
  using cleanup_trace_events[OF assms]
  by (auto intro!: filter_empty_if stages_none replies_none)

lemma session_trace_count:
  assumes "session_trace pc T rs"
  shows "length (filter is_gather_call T) \<le> 5 \<and> length (filter is_profile_request T) \<le> 5"
  using assms
  by (cases rule: session_trace.cases)
     (auto simp: cleanup_trace_simps dest: loop_trace_count)

lemma loop_trace_no_calls:
  assumes "loop_trace n l pc L rl"
  shows "\<forall>z\<in>set L. \<not> is_research_call z \<and> \<not> is_roadmap_call z"
  using loop_trace_stage[OF assms] by auto

lemma profile_stage_stage_of: "profile_stage ev \<Longrightarrow> stage_of ev = None \<or> stage_of ev = Some 1"
  by (cases ev rule: profile_stage.cases) simp_all

lemma loop_trace_stages:
  assumes "loop_trace n l pc L rl"
  shows "set (stages L) \<subseteq> {1}"
proof -
  have "(\<forall>z\<in>set xs. profile_stage z) \<Longrightarrow> set (stages xs) \<subseteq> {1}" for xs
    by (induction xs) (auto dest: profile_stage_stage_of split: option.splits)
  with loop_trace_stage[OF assms] show ?thesis by blast
qed

lemma sorted_ones: "set xs \<subseteq> {1::nat} \<Longrightarrow> sorted xs"
  by (induction xs) auto

lemma sorted_ones_then:
  assumes "set xs \<subseteq> {1::nat}" and "sorted ys" and "\<forall>y\<in>set ys. 1 \<le> y"
  shows "sorted (xs @ ys)"
  using assms sorted_ones[of xs] by (auto simp: sorted_append)

lemma session_stages_sorted:
  assumes "session_trace pc T rs"
  shows "sorted (stages T)"
  using assms
proof (cases rule: session_trace.cases)
  case (st_input_raised e)
  then show ?thesis by simp
next
  case (st_loop_raised line L e)
  with loop_trace_stages[of 5 "fresh_locals line" pc L "Inl e"]
  have "stages T = stages L @ []" "set (stages L) \<subseteq> {1}" by auto
  then show ?thesis using sorted_ones_then[of "stages L" "[]"] by simp
next
  case (st_research_raised line L l p e)
  with loop_trace_stages[of 5 "fresh_locals line" pc L "Inr l"]
  have "stages T = stages L @ [2, 2]" "set (stages L) \<subseteq> {1}" by auto
  then show ?thesis using sorted_ones_then[of "stages L" "[2, 2]"] by simp
next
  case (st_roadmap_raised line L l p res e)
  with loop_trace_stages[of 5 "fresh_locals line" pc L "Inr l"]
  have "stages T = stages L @ [2, 2, 3, 3]" "set (stages L) \<subseteq> {1}" by auto
  then show ?thesis using sorted_ones_then[of "stages L" "[2, 2, 3, 3]"] by simp
next
  case (st_finished line L l p K res rm)
  with loop_trace_stages[of 5 "fresh_locals line" pc L "Inr l"] cleanup_trace_simps(3)[of K rs]
  have "stages T = stages L @ [2, 2, 3, 3]" "set (stages L) \<subseteq> {1}" by auto
  then show ?thesis using sorted_ones_then[of "stages L" "[2, 2, 3, 3]"] by simp
qed

subsection \<open>Where the research and the roadmap calls sit\<close>

lemma session_fallback:
  assumes "loop_trace 5 (fresh_locals line) pc L (Inr l)" and "fallback l = Inr p"
  shows "p = last (profile_replies L)"
  using loop_fallback[of 4 "fresh_locals line" pc L l] assms
  by (simp add: five_Suc[symmetric] fresh_locals_def)

lemma research_split:
  assumes L: "loop_trace n l0 pc L rl"
    and eq: "banner_events @ [Input first_prompt i0] @ L @ research_events p r2 @ rest
               = pre @ Invoke Research_learning_path args # post"
    and rest: "\<forall>z\<in>set rest. \<not> is_research_call z"
  shows "pre = banner_events @ [Input first_prompt i0] @ L @ [SetContext (ascii ''user_profile'') (Str p)]
         \<and> args = [p]
         \<and> post = Print (nl @ ascii ''[2/3] FINDING LEARNING RESOURCES...'')
                    # AgentRun ResearchAgent (research_query p) r2 # rest"
proof -
  let ?xs = "banner_events @ [Input first_prompt i0] @ L @ [SetContext (ascii ''user_profile'') (Str p)]"
  let ?ys = "Print (nl @ ascii ''[2/3] FINDING LEARNING RESOURCES...'')
               # AgentRun ResearchAgent (research_query p) r2 # rest"
  from eq have e: "?xs @ Invoke Research_learning_path [p] # ?ys
                     = pre @ Invoke Research_learning_path args # post"
    by (simp add: research_events_def)
  have nx: "\<forall>z\<in>set ?xs. \<not> is_research_call z"
    using loop_trace_no_calls[OF L] by (auto simp: banner_events_def)
  have ny: "\<forall>z\<in>set ?ys. \<not> is_research_call z"
    using rest by auto
  have P: "is_research_call (Invoke Research_learning_path args)" by simp
  from split_unique[OF e P nx ny] show ?thesis by simp
qed

lemma session_research_located:
  assumes "session_trace pc T rs" and "T = pre @ Invoke Research_learning_path args # post"
  shows "\<exists>line L l r2 rest.
           loop_trace 5 (fresh_locals line) pc L (Inr l) \<and>
           pre = banner_events @ [Input first_prompt (Inr line)] @ L
                   @ [SetContext (ascii ''user_profile'') (Str (last (profile_replies L)))] \<and>
           args = [last (profile_replies L)] \<and>
           post = Print (nl @ ascii ''[2/3] FINDING LEARNING RESOURCES...'')
                    # AgentRun ResearchAgent (research_query (last (profile_replies L))) r2 # rest \<and>
           (\<forall>z\<in>set rest. \<not> is_research_call z)"
  using assms(1)
proof (cases rule: session_trace.cases)
  case (st_input_raised e)
  with assms(2) have "banner_events @ [Input first_prompt (Inl e)] = pre @ Invoke Research_learning_path args # post"
    by simp
  from no_event[OF this, of is_research_call] show ?thesis
    by (auto simp: banner_events_def)
next
  case (st_loop_raised line L e)
  with assms(2) have "banner_events @ [Input first_prompt (Inr line)] @ L = pre @ Invoke Research_learning_path args # post"
    by simp
  from no_event[OF this, of is_research_call] loop_trace_no_calls[OF st_loop_raised(3)] show ?thesis
    by (auto simp: banner_events_def)
next
  case (st_research_raised line L l p e)
  then have L: "loop_trace 5 (fresh_locals line) pc L (Inr l)"
    and p: "p = last (profile_replies L)"
    by (auto dest: session_fallback)
  from st_research_raised(1) assms(2)
  have "banner_events @ [Input first_prompt (Inr line)] @ L @ research_events p (Inl e) @ []
          = pre @ Invoke Research_learning_path args # post" by simp
  from research_split[OF L this] L p show ?thesis
    by auto
next
  case (st_roadmap_raised line L l p res e)
  then have L: "loop_trace 5 (fresh_locals line) pc L (Inr l)"
    and p: "p = last (profile_replies L)"
    by (auto dest: session_fallback)
  from st_roadmap_raised(1) assms(2)
  have "banner_events @ [Input first_prompt (Inr line)] @ L @ research_events p (Inr res)
          @ roadmap_events p res (Inl e)
          = pre @ Invoke Research_learning_path args # post" by simp
  from research_split[OF L this] L p show ?thesis
    by auto
next
  case (st_finished line L l p K res rm)
  then have L: "loop_trace 5 (fresh_locals line) pc L (Inr l)"
    and p: "p = last (profile_replies L)"
    by (auto dest: session_fallback)
  have rest: "\<forall>z\<in>set (roadmap_events p res (Inr rm) @ finish_events rm @ K). \<not> is_research_call z"
    using st_finished cleanup_trace_simps(5)[of K rs] by auto
  from st_finished(1) assms(2)
  have "banner_events @ [Input first_prompt (Inr line)] @ L @ research_events p (Inr res)
          @ (roadmap_events p res (Inr rm) @ finish_events rm @ K)
          = pre @ Invoke Research_learning_path args # post" by simp
  from research_split[OF L this rest] L p rest show ?thesis
    by auto
qed



lemma main_split:
  assumes m: "main cfg w = (r, tr)" and eq: "tr = pre @ ev # post" and P: "P ev"
    and np: "\<And>t. \<not> P (Print t)" and nc: "\<And>c a. \<not> P (Construct c a)"
  shows "\<exists>T rs pre' post'. session_trace [] T rs \<and> T = pre' @ ev # post' \<and>
           pre = init_events cfg @ pre' \<and> post = post' @ top_level_events rs \<and>
           r = top_level_result rs"
proof -
  from main_trace[OF m] obtain T rs where
    T: "session_trace [] T rs" "tr = init_events cfg @ T @ top_level_events rs"
       "r = top_level_result rs"
    by blast
  have ni: "\<forall>z\<in>set (init_events cfg). \<not> P z"
    using nc by (simp add: init_events_def init_def)
  have nt: "\<forall>z\<in>set (top_level_events rs). \<not> P z"
    using np by (cases rs) auto
  from T(2) eq have "init_events cfg @ (T @ top_level_events rs) = pre @ ev # post" by simp
  from split_right[OF this, of P] P ni obtain pre' where
    1: "T @ top_level_events rs = pre' @ ev # post" "pre = init_events cfg @ pre'" by blast
  from split_left[OF 1(1), of P] P nt obtain post' where
    2: "T = pre' @ ev # post'" "post = post' @ top_level_events rs" by blast
  from T(1,3) 1(2) 2 show ?thesis by blast
qed

lemma find_else_last:
  assumes "rs \<noteq> []" and "\<forall>r\<in>set (butlast rs). \<not> P r"
  shows "(case find P rs of None \<Rightarrow> last rs | Some r \<Rightarrow> r) = last rs"
  using assms by (induction rs) (auto split: if_splits option.splits)

subsection \<open>Running the program in a concrete world\<close>

lemmas run_defs = main_def run_interactive_session_def init_def welcome_banner_def
  success_banner_def input_def run_agent_def sleep_def close_def aexit_def emit_def
  gather_profile_def research_learning_path_def create_roadmap_def cleanup_mcp_def
  cleanup_try_def set_context_def fallback_def Let_def

lemmas log_defs = init_events_def banner_events_def gather_events_def gather_header_def
  research_events_def roadmap_events_def finish_events_def cleanup_ok_def

lemma complete_reply_marker: "contains PROFILE_COMPLETE complete_reply"
  by (simp add: PROFILE_COMPLETE_def complete_reply_def ascii_def)

lemma question_no_marker: "\<not> contains PROFILE_COMPLETE question"
  by (simp add: PROFILE_COMPLETE_def question_def ascii_def)

lemma goal_line_not_blank: "strip goal_line \<noteq> []"
  by (simp add: strip_def goal_line_def ascii_def isspace_def)

lemma blank_line_blank: "strip blank_line = []"
  by (simp add: strip_def blank_line_def ascii_def isspace_def)

lemma profile_loop_five:
  "profile_loop w 5 l s = profile_loop w (Suc (Suc (Suc (Suc (Suc 0))))) l s"
  by (simp add: eval_nat_numeral)

lemma main_world_complete: "main cfg0 world_complete = (Inr (), trace_complete)"
  by (simp add: run_defs log_defs world_complete_def trace_complete_def profile_loop_five
      complete_reply_marker
      cong: sum.case_cong_weak prod.case_cong_weak if_weak_cong)

subsection \<open>Blank lines and the first input\<close>

lemma prompts_differ: "follow_up_prompt \<noteq> first_prompt"
  by (simp add: follow_up_prompt_def first_prompt_def nl_def ascii_def)

lemma all_dropWhile: "(\<forall>x\<in>set (dropWhile P xs). P x) \<longleftrightarrow> (\<forall>x\<in>set xs. P x)"
  by (induction xs) auto

lemma strip_empty_iff: "strip s = [] \<longleftrightarrow> list_all isspace s"
  by (simp add: strip_def dropWhile_eq_Nil_conv all_dropWhile list_all_iff)

lemma gather_events_quiet [simp]:
  "\<forall>z\<in>set (gather_events pc u r). \<not> blank_follow_up z"
  "\<forall>z\<in>set (gather_events pc u r). \<not> is_first_input z"
  by (simp_all add: gather_events_def)

lemma loop_trace_blank:
  assumes "loop_trace n l pc L rl" and "L = pre @ ev # post" and "blank_follow_up ev"
  shows "post = [] \<and> (\<exists>l'. rl = Inr l')"
  using assms
proof (induction arbitrary: pre rule: loop_trace.induct)
  case (lt_zero l pc)
  then show ?case by simp
next
  case (lt_gather_raised n l pc e)
  from no_event[where P = blank_follow_up, OF lt_gather_raised.prems] show ?case by simp
next
  case (lt_complete reply n l pc)
  from no_event[where P = blank_follow_up, OF lt_complete.prems] show ?case by simp
next
  case (lt_input_raised reply n l pc e)
  from no_event[where P = blank_follow_up, OF lt_input_raised.prems] show ?case by simp
next
  case (lt_blank reply line n l pc)
  let ?xs = "gather_events pc (user_input l) (Inr reply) @ [Print (nl @ reply)]"
  from lt_blank.prems(1) have "?xs @ Input follow_up_prompt (Inr line) # [] = pre @ ev # post"
    by simp
  from split_unique[where P = blank_follow_up, OF this lt_blank.prems(2)] show ?case by simp
next
  case (lt_continue reply line n l pc L rl)
  let ?xs = "gather_events pc (user_input l) (Inr reply)
               @ [Print (nl @ reply), Input follow_up_prompt (Inr line)]"
  from lt_continue.prems(1) have e: "?xs @ L = pre @ ev # post" by simp
  have "\<forall>z\<in>set ?xs. \<not> blank_follow_up z" using lt_continue.hyps(2) by simp
  from split_right[where P = blank_follow_up, OF e lt_continue.prems(2) this]
  obtain pre' where "L = pre' @ ev # post" by blast
  from lt_continue.IH[OF this lt_continue.prems(2)] show ?case .
qed

lemma loop_trace_inputs:
  assumes "loop_trace n l pc L rl"
  shows "\<forall>z\<in>set L. \<not> is_first_input z"
proof -
  have "profile_stage z \<Longrightarrow> \<not> is_first_input z" for z
    using prompts_differ by (cases z rule: profile_stage.cases) auto
  with loop_trace_stage[OF assms] show ?thesis by blast
qed

lemma loop_trace_starts:
  assumes "loop_trace (Suc n) l pc L rl"
  shows "\<exists>reply rest. L = gather_events pc (user_input l) reply @ rest"
  using assms by (cases rule: loop_trace.cases) auto

lemma tail_events_quiet [simp]:
  "\<forall>z\<in>set banner_events. \<not> blank_follow_up z"
  "\<forall>z\<in>set banner_events. \<not> is_first_input z"
  "\<forall>z\<in>set (research_events p r2). \<not> blank_follow_up z"
  "\<forall>z\<in>set (research_events p r2). \<not> is_first_input z"
  "\<forall>z\<in>set (research_events p r2). \<not> is_gather_call z"
  "\<forall>z\<in>set (research_events p r2). \<not> is_profile_request z"
  "\<forall>z\<in>set (roadmap_events p res r3). \<not> blank_follow_up z"
  "\<forall>z\<in>set (roadmap_events p res r3). \<not> is_first_input z"
  "\<forall>z\<in>set (roadmap_events p res r3). \<not> is_gather_call z"
  "\<forall>z\<in>set (roadmap_events p res r3). \<not> is_profile_request z"
  "\<forall>z\<in>set (finish_events rm). \<not> blank_follow_up z"
  "\<forall>z\<in>set (finish_events rm). \<not> is_first_input z"
  "\<forall>z\<in>set (finish_events rm). \<not> is_gather_call z"
  "\<forall>z\<in>set (finish_events rm). \<not> is_profile_request z"
  by (simp_all add: banner_events_def research_events_def roadmap_events_def finish_events_def)

lemma cleanup_trace_quiet:
  assumes "cleanup_trace K r"
  shows "\<forall>z\<in>set K. \<not> blank_follow_up z \<and> \<not> is_first_input z \<and> \<not> is_gather_call z \<and> \<not> is_profile_request z"
  using assms by (cases rule: cleanup_trace.cases) auto

lemma blank_in_loop:
  assumes L: "loop_trace n l0 pc L rl"
    and eq: "(banner_events @ [Input first_prompt i0]) @ L @ rest = pre @ ev # post"
    and P: "blank_follow_up ev"
    and rest: "\<forall>z\<in>set rest. \<not> blank_follow_up z"
  shows "post = rest \<and> (\<exists>l'. rl = Inr l')"
proof -
  have "\<forall>z\<in>set (banner_events @ [Input first_prompt i0]). \<not> blank_follow_up z"
    using prompts_differ by (cases i0) auto
  from split_right[where P = blank_follow_up, OF eq P this] obtain pre' where 1: "L @ rest = pre' @ ev # post" by blast
  from split_left[where P = blank_follow_up, OF 1 P rest] obtain post' where 2: "L = pre' @ ev # post'" "post = post' @ rest"
    by blast
  from loop_trace_blank[OF L 2(1) P] 2(2) show ?thesis by simp
qed

text \<open>What follows a blank follow-up line in the log of a session.\<close>

lemma session_blank_located:
  assumes "session_trace pc T rs" and "T = pre @ ev # post" and "blank_follow_up ev"
  shows "\<exists>p r2 rest. post = research_events p r2 @ rest \<and>
           (\<forall>z\<in>set rest. \<not> is_gather_call z \<and> \<not> is_profile_request z)"
  using assms(1)
proof (cases rule: session_trace.cases)
  case (st_input_raised e)
  with assms(2) have "banner_events @ [Input first_prompt (Inl e)] = pre @ ev # post" by simp
  from no_event[where P = blank_follow_up, OF this assms(3)] show ?thesis by simp
next
  case (st_loop_raised line L e)
  then have L: "loop_trace 5 (fresh_locals line) pc L (Inl e)" by simp
  from st_loop_raised(1) assms(2)
  have "(banner_events @ [Input first_prompt (Inr line)]) @ L @ [] = pre @ ev # post" by simp
  from blank_in_loop[OF L this assms(3)] show ?thesis by simp
next
  case (st_research_raised line L l p e)
  then have L: "loop_trace 5 (fresh_locals line) pc L (Inr l)" by simp
  from st_research_raised(1) assms(2)
  have "(banner_events @ [Input first_prompt (Inr line)]) @ L @ research_events p (Inl e)
          = pre @ ev # post" by simp
  from blank_in_loop[OF L this assms(3)] have "post = research_events p (Inl e) @ []" by simp
  then show ?thesis by (intro exI[of _ p] exI[of _ "Inl e"] exI[of _ "[]"]) simp
next
  case (st_roadmap_raised line L l p res e)
  then have L: "loop_trace 5 (fresh_locals line) pc L (Inr l)" by simp
  from st_roadmap_raised(1) assms(2)
  have "(banner_events @ [Input first_prompt (Inr line)]) @ L
          @ (research_events p (Inr res) @ roadmap_events p res (Inl e))
          = pre @ ev # post" by simp
  from blank_in_loop[OF L this assms(3)]
  have "post = research_events p (Inr res) @ roadmap_events p res (Inl e)"
    by (simp add: ball_Un)
  then show ?thesis
    by (intro exI[of _ p] exI[of _ "Inr res"] exI[of _ "roadmap_events p res (Inl e)"])
       (simp add: ball_Un)
next
  case (st_finished line L l p K res rm)
  then have L: "loop_trace 5 (fresh_locals line) pc L (Inr l)" and K: "cleanup_trace K rs"
    by simp_all
  note q = cleanup_trace_quiet[OF K]
  from st_finished(1) assms(2)
  have "(banner_events @ [Input first_prompt (Inr line)]) @ L
          @ (research_events p (Inr res) @ roadmap_events p res (Inr rm) @ finish_events rm @ K)
          = pre @ ev # post" by simp
  from blank_in_loop[OF L this assms(3)] q
  have "post = research_events p (Inr res) @ (roadmap_events p res (Inr rm) @ finish_events rm @ K)"
    by (simp add: ball_Un)
  then show ?thesis using q
    by (intro exI[of _ p] exI[of _ "Inr res"]
          exI[of _ "roadmap_events p res (Inr rm) @ finish_events rm @ K"]) (simp add: ball_Un)
qed

lemma main_world_blank:
  "main cfg0 world_blank
     = (Inr (), pre_blank @ Input follow_up_prompt (Inr blank_line) # post_blank)"
  by (simp add: run_defs log_defs world_blank_def pre_blank_def post_blank_def profile_loop_five
      question_no_marker blank_line_blank prompts_differ
      cong: sum.case_cong_weak prod.case_cong_weak if_weak_cong)

lemma research_in_trace_complete:
  "snd (main cfg0 world_complete)
     = pre_research @ Invoke Research_learning_path [complete_reply] # post_research"
  by (simp add: main_world_complete trace_complete_def pre_research_def post_research_def
      research_events_def)


lemma research_in_trace_blank:
  "snd (main cfg0 world_blank)
     = pre_fallback @ Invoke Research_learning_path [question] # post_fallback"
  by (simp add: main_world_blank pre_fallback_def post_fallback_def post_blank_def
      research_events_def)

lemma profile_replies_pre_research: "profile_replies pre_research = [complete_reply]"
  by (simp add: pre_research_def gather_events_def banner_events_def init_events_def init_def)

lemma profile_replies_pre_fallback: "profile_replies pre_fallback = [question]"
  by (simp add: pre_fallback_def pre_blank_def gather_events_def banner_events_def
      init_events_def init_def)

lemma cleanup_trace_first_input:
  assumes "cleanup_trace K r"
  shows "\<forall>z\<in>set K. \<not> is_first_input z"
  using cleanup_trace_quiet[OF assms] by blast

lemma first_input_split:
  assumes L: "loop_trace (Suc n) l0 pc L rl"
    and eq: "banner_events @ Input first_prompt i0 # L @ rest = pre @ Input first_prompt (Inr line) # post"
    and rest: "\<forall>z\<in>set rest. \<not> is_first_input z"
  shows "i0 = Inr line \<and> (\<exists>reply rest'. post = gather_events pc (user_input l0) reply @ rest')"
proof -
  have P: "is_first_input (Input first_prompt (Inr line))" by simp
  have ny: "\<forall>z\<in>set (L @ rest). \<not> is_first_input z"
    using loop_trace_inputs[OF L] rest by auto
  from split_unique[where P = is_first_input, OF eq P _ ny]
  have "i0 = Inr line" "post = L @ rest" by simp_all
  moreover from loop_trace_starts[OF L] obtain reply rest' where
    "L = gather_events pc (user_input l0) reply @ rest'" by blast
  ultimately have "i0 = Inr line \<and> post = gather_events pc (user_input l0) reply @ (rest' @ rest)"
    by simp
  then show ?thesis by blast
qed

lemma session_first_input:
  assumes "session_trace pc T rs" and "T = pre @ Input first_prompt (Inr line) # post"
  shows "\<exists>reply rest. post = gather_events pc line reply @ rest"
  using assms(1)
proof (cases rule: session_trace.cases)
  case (st_input_raised e)
  with assms(2)
  have eq: "banner_events @ Input first_prompt (Inl e) # [] = pre @ Input first_prompt (Inr line) # post"
    by simp
  have P: "is_first_input (Input first_prompt (Inr line))" by simp
  from split_unique[where P = is_first_input, OF eq P] show ?thesis by simp
next
  case (st_loop_raised line0 L e)
  then have L: "loop_trace (Suc 4) (fresh_locals line0) pc L (Inl e)"
    by (simp add: five_Suc[symmetric])
  from st_loop_raised(1) assms(2)
  have "banner_events @ Input first_prompt (Inr line0) # L @ [] = pre @ Input first_prompt (Inr line) # post"
    by simp
  from first_input_split[OF L this] show ?thesis by (auto simp: fresh_locals_def)
next
  case (st_research_raised line0 L l p e)
  then have L: "loop_trace (Suc 4) (fresh_locals line0) pc L (Inr l)"
    by (simp add: five_Suc[symmetric])
  from st_research_raised(1) assms(2)
  have "banner_events @ Input first_prompt (Inr line0) # L @ research_events p (Inl e)
          = pre @ Input first_prompt (Inr line) # post"
    by simp
  from first_input_split[OF L this] show ?thesis by (auto simp: fresh_locals_def)
next
  case (st_roadmap_raised line0 L l p res e)
  then have L: "loop_trace (Suc 4) (fresh_locals line0) pc L (Inr l)"
    by (simp add: five_Suc[symmetric])
  from st_roadmap_raised(1) assms(2)
  have "banner_events @ Input first_prompt (Inr line0) # L
          @ (research_events p (Inr res) @ roadmap_events p res (Inl e))
          = pre @ Input first_prompt (Inr line) # post"
    by simp
  from first_input_split[OF L this] show ?thesis by (auto simp: fresh_locals_def ball_Un)
next
  case (st_finished line0 L l p K res rm)
  then have L: "loop_trace (Suc 4) (fresh_locals line0) pc L (Inr l)"
    and K: "cleanup_trace K rs"
    by (simp_all add: five_Suc[symmetric])
  from st_finished(1) assms(2)
  have "banner_events @ Input first_prompt (Inr line0) # L
          @ (research_events p (Inr res) @ roadmap_events p res (Inr rm) @ finish_events rm @ K)
          = pre @ Input first_prompt (Inr line) # post"
    by simp
  from first_input_split[OF L this] cleanup_trace_first_input[OF K] show ?thesis
    by (auto simp: fresh_locals_def ball_Un)
qed

lemma main_world_silent:
  "main cfg0 world_silent
     = (Inr (), (init_events cfg0 @ banner_events) @ Input first_prompt (Inr blank_line) # post_silent)"
  by (simp add: run_defs log_defs world_silent_def post_silent_def post_blank_def profile_loop_five
      question_no_marker blank_line_blank
      cong: sum.case_cong_weak prod.case_cong_weak if_weak_cong)

subsection \<open>Exceptions end the session\<close>

lemma quiet_simps [simp]:
  "quiet []" "quiet (ev # evs) \<longleftrightarrow> uncaught ev = None \<and> quiet evs"
  "quiet (xs @ ys) \<longleftrightarrow> quiet xs \<and> quiet ys"
  by (simp_all add: quiet_def)

lemma quiet_iff: "quiet evs \<longleftrightarrow> (\<forall>ev\<in>set evs. uncaught ev = None)"
  by (simp add: quiet_def list_all_iff)

lemma uncaught_simps [simp]:
  "uncaught (Print t) = None"
  "uncaught (Construct c a) = None"
  "uncaught (Invoke m a) = None"
  "uncaught (SetContext k v) = None"
  "uncaught (Input p (Inr line)) = None"
  "uncaught (Input p (Inl e)) = Some e"
  "uncaught (AgentRun g q (Inr reply)) = None"
  "uncaught (AgentRun g q (Inl e)) = Some e"
  "uncaught (Sleep (Inr u)) = None"
  "uncaught (McpClose (Inr u)) = None"
  "uncaught (McpAexit (Inr u)) = None"
  "uncaught (Sleep (Inl e)) = (if isinstance_Exception e then None else Some e)"
  "uncaught (McpClose (Inl e)) = (if isinstance_Exception e then None else Some e)"
  "uncaught (McpAexit (Inl e)) = (if isinstance_Exception e then None else Some e)"
  by (simp_all add: uncaught_def)

lemma abrupt_prepend:
  assumes "quiet xs" and "abrupt ys r"
  shows "abrupt (xs @ ys) r"
  using assms by (cases r) (auto simp: abrupt_def butlast_append)

lemma abrupt_last:
  assumes "quiet xs" and "uncaught ev = Some e"
  shows "abrupt (xs @ [ev]) (Inl e)"
  using assms by (simp add: abrupt_def)

lemma abrupt_split:
  assumes "abrupt evs r" and "evs = pre @ ev # post" and "uncaught ev = Some e"
  shows "post = [] \<and> r = Inl e"
proof (cases r)
  case (Inr v)
  with assms show ?thesis by (auto simp: abrupt_def)
next
  case (Inl e')
  with assms(1) have ne: "evs \<noteq> []" and q: "quiet (butlast evs)"
    and l: "uncaught (last evs) = Some e'"
    by (simp_all add: abrupt_def)
  have "post = []"
  proof (rule ccontr)
    assume "post \<noteq> []"
    with assms(2) have "butlast evs = pre @ ev # butlast post" by (simp add: butlast_append)
    with q assms(3) show False by simp
  qed
  with assms(2,3) l Inl show ?thesis by simp
qed

lemma segments_quiet [simp]:
  "quiet (init_events cfg)" "quiet banner_events" "quiet (finish_events rm)"
  "quiet (gather_events pc u (Inr reply))"
  "quiet (research_events p (Inr res))"
  "quiet (roadmap_events p res (Inr rm))"
  by (simp_all add: init_events_def init_def banner_events_def finish_events_def
      gather_events_def research_events_def roadmap_events_def)

lemma segments_abrupt:
  "abrupt (gather_events pc u (Inl e)) (Inl e)"
  "abrupt (research_events p (Inl e)) (Inl e)"
  "abrupt (roadmap_events p res (Inl e)) (Inl e)"
  by (simp_all add: abrupt_def gather_events_def research_events_def roadmap_events_def)

lemma loop_trace_abrupt:
  "loop_trace n l pc L rl \<Longrightarrow> abrupt L rl"
proof (induction rule: loop_trace.induct)
  case (lt_zero l pc)
  then show ?case by (simp add: abrupt_def)
next
  case (lt_gather_raised n l pc e)
  then show ?case by (simp add: segments_abrupt)
next
  case (lt_complete reply n l pc)
  then show ?case by (simp add: abrupt_def)
next
  case (lt_input_raised reply n l pc e)
  have "abrupt ((gather_events pc (user_input l) (Inr reply) @ [Print (nl @ reply)])
                  @ [Input follow_up_prompt (Inl e)]) (Inl e)"
    by (rule abrupt_last) simp_all
  then show ?case by simp
next
  case (lt_blank reply line n l pc)
  then show ?case by (simp add: abrupt_def)
next
  case (lt_continue reply line n l pc L rl)
  have "abrupt ((gather_events pc (user_input l) (Inr reply)
                  @ [Print (nl @ reply), Input follow_up_prompt (Inr line)]) @ L) rl"
    by (rule abrupt_prepend) (simp_all add: lt_continue.IH)
  then show ?case by simp
qed

lemma cleanup_trace_abrupt:
  assumes "cleanup_trace K r"
  shows "abrupt K r"
  using assms
proof (cases rule: cleanup_trace.cases)
  case (ct_close o2)
  then show ?thesis by (cases o2) (auto simp: abrupt_def)
next
  case (ct_aexit o2)
  then show ?thesis by (cases o2) (auto simp: abrupt_def)
qed (auto simp: abrupt_def)

lemma session_trace_abrupt:
  assumes "session_trace pc T rs"
  shows "abrupt T rs"
  using assms
proof (cases rule: session_trace.cases)
  case (st_input_raised e)
  have "abrupt (banner_events @ [Input first_prompt (Inl e)]) (Inl e)"
    by (rule abrupt_last) simp_all
  with st_input_raised show ?thesis by simp
next
  case (st_loop_raised line L e)
  then have "loop_trace 5 (fresh_locals line) pc L (Inl e)" by simp
  from loop_trace_abrupt[OF this] have "abrupt L (Inl e :: exn + unit)"
    by (simp add: abrupt_def)
  then have "abrupt ((banner_events @ [Input first_prompt (Inr line)]) @ L) (Inl e :: exn + unit)"
    by (intro abrupt_prepend) simp_all
  with st_loop_raised show ?thesis by simp
next
  case (st_research_raised line L l p e)
  then have "loop_trace 5 (fresh_locals line) pc L (Inr l)" by simp
  from loop_trace_abrupt[OF this] have "quiet L" by (simp add: abrupt_def)
  then have "abrupt ((banner_events @ [Input first_prompt (Inr line)] @ L)
                      @ research_events p (Inl e)) (Inl e)"
    by (intro abrupt_prepend segments_abrupt) simp
  with st_research_raised show ?thesis by simp
next
  case (st_roadmap_raised line L l p res e)
  then have "loop_trace 5 (fresh_locals line) pc L (Inr l)" by simp
  from loop_trace_abrupt[OF this] have "quiet L" by (simp add: abrupt_def)
  then have "abrupt ((banner_events @ [Input first_prompt (Inr line)] @ L
                       @ research_events p (Inr res)) @ roadmap_events p res (Inl e)) (Inl e)"
    by (intro abrupt_prepend segments_abrupt) simp
  with st_roadmap_raised show ?thesis by simp
next
  case (st_finished line L l p K res rm)
  then have "loop_trace 5 (fresh_locals line) pc L (Inr l)" and K: "cleanup_trace K rs"
    by simp_all
  from loop_trace_abrupt[OF this(1)] cleanup_trace_abrupt[OF K]
  have "quiet L" and "abrupt K rs" by (simp_all add: abrupt_def)
  then have "abrupt ((banner_events @ [Input first_prompt (Inr line)] @ L
                       @ research_events p (Inr res) @ roadmap_events p res (Inr rm)
                       @ finish_events rm) @ K) rs"
    by (intro abrupt_prepend) simp_all
  with st_finished show ?thesis by simp
qed

text \<open>
  An exception that is not caught where it is raised ends the session: the event that
  raised it is the last one of the session, and the session raises that exception.
\<close>

lemma main_uncaught:
  assumes m: "main cfg w = (r, tr)" and eq: "tr = pre @ ev # post"
    and u: "uncaught ev = Some e"
  shows "run_interactive_session w (init cfg)
           = (Inl e, snd (run_interactive_session w (init cfg)))"
    and "trace (snd (run_interactive_session w (init cfg))) = pre @ [ev]"
    and "post = top_level_events (Inl e)"
    and "r = top_level_result (Inl e)"
    and "\<exists>T0. pre = init_events cfg @ T0 \<and> session_trace [] (T0 @ [ev]) (Inl e)"
proof -
  obtain rs s' where run: "run_interactive_session w (init cfg) = (rs, s')"
    by (cases "run_interactive_session w (init cfg)")
  from run_interactive_session_trace[OF run] obtain T where
    T: "trace s' = init_events cfg @ T" "session_trace [] T rs"
    by (auto simp: init_events_def init_def)
  from m run T(1) have tr: "tr = init_events cfg @ T @ top_level_events rs"
    and r: "r = top_level_result rs"
    by (cases rs; auto simp: main_def split: if_splits)+
  have P: "uncaught ev \<noteq> None" using u by simp
  have ni: "\<forall>z\<in>set (init_events cfg). \<not> uncaught z \<noteq> None"
    using segments_quiet(1)[of cfg] by (simp add: quiet_iff)
  have nt: "\<forall>z\<in>set (top_level_events rs). \<not> uncaught z \<noteq> None"
    by (cases rs) auto
  from tr eq have "init_events cfg @ (T @ top_level_events rs) = pre @ ev # post" by simp
  from split_right[where P = "\<lambda>z. uncaught z \<noteq> None", OF this P ni] obtain pre' where
    1: "T @ top_level_events rs = pre' @ ev # post" "pre = init_events cfg @ pre'" by blast
  from split_left[where P = "\<lambda>z. uncaught z \<noteq> None", OF 1(1) P nt] obtain post' where
    2: "T = pre' @ ev # post'" "post = post' @ top_level_events rs" by blast
  from abrupt_split[OF session_trace_abrupt[OF T(2)] 2(1) u]
  have 3: "post' = []" "rs = Inl e" by simp_all
  from run 3 show "run_interactive_session w (init cfg)
           = (Inl e, snd (run_interactive_session w (init cfg)))" by simp
  from run T(1) 1(2) 2(1) 3 show "trace (snd (run_interactive_session w (init cfg))) = pre @ [ev]"
    by simp
  from 2(2) 3 show "post = top_level_events (Inl e)" by simp
  from r 3 show "r = top_level_result (Inl e)" by simp
  from T(2) 1(2) 2(1) 3 show "\<exists>T0. pre = init_events cfg @ T0 \<and> session_trace [] (T0 @ [ev]) (Inl e)"
    by auto
qed

lemma raised_uncaught:
  assumes "raised ev = Some e" and "\<not> in_cleanup ev \<or> \<not> isinstance_Exception e"
  shows "uncaught ev = Some e"
  using assms by (auto simp: uncaught_def)

lemma stage_in_stages: "z \<in> set evs \<Longrightarrow> stage_of z = Some k \<Longrightarrow> k \<in> set (stages evs)"
  by (induction evs) (auto split: option.splits)

lemma is_roadmap_event_stage: "is_roadmap_event z \<Longrightarrow> stage_of z = Some 3"
  by (cases z rule: is_roadmap_event.cases) simp_all

lemma no_roadmap_before_stage_two:
  assumes "sorted (stages (T0 @ [ev]))" and "stage_of ev = Some 2"
  shows "\<not> list_ex is_roadmap_event (T0 @ [ev])"
proof
  assume "list_ex is_roadmap_event (T0 @ [ev])"
  then obtain z where z: "z \<in> set (T0 @ [ev])" "is_roadmap_event z"
    by (auto simp: list_ex_iff)
  with assms(2) have "z \<in> set T0" by (auto dest: is_roadmap_event_stage)
  from stage_in_stages[OF this is_roadmap_event_stage[OF z(2)]] have "3 \<in> set (stages T0)" .
  with assms show False by (auto simp: sorted_append)
qed

lemma top_level_events_no_roadmap: "\<not> list_ex is_roadmap_event (top_level_events rs)"
  by (cases rs) auto

lemma init_events_no_roadmap: "\<not> list_ex is_roadmap_event (init_events cfg)"
  by (simp add: init_events_def init_def)

lemma profile_stage_not_cleanup: "\<forall>z\<in>set L. profile_stage z \<Longrightarrow> \<not> list_ex in_cleanup L"
  by (auto simp: list_ex_iff)

lemma segments_no_cleanup [simp]:
  "\<not> list_ex in_cleanup (init_events cfg)"
  "\<not> list_ex in_cleanup banner_events"
  "\<not> list_ex in_cleanup (research_events p r2)"
  "\<not> list_ex in_cleanup (roadmap_events p res r3)"
  "\<not> list_ex in_cleanup (finish_events rm)"
  "\<not> list_ex in_cleanup (top_level_events rs)"
  by (cases rs; simp add: init_events_def init_def banner_events_def research_events_def
      roadmap_events_def finish_events_def)+

text \<open>A session whose last event is outside the cleanup never reached the cleanup.\<close>

lemma loop_trace_no_cleanup:
  assumes "loop_trace n l pc L rl"
  shows "\<not> list_ex in_cleanup L"
  using loop_trace_stage[OF assms] by (rule profile_stage_not_cleanup)

lemma session_no_cleanup:
  assumes "session_trace pc T rs" and "T = T0 @ [ev]" and "\<not> in_cleanup ev"
  shows "\<not> list_ex in_cleanup T"
  using assms(1)
proof (cases rule: session_trace.cases)
  case (st_input_raised e)
  then show ?thesis by simp
next
  case (st_loop_raised line L e)
  then have "loop_trace 5 (fresh_locals line) pc L (Inl e)" by simp
  from loop_trace_no_cleanup[OF this] st_loop_raised(1) show ?thesis
    by simp
next
  case (st_research_raised line L l p e)
  then have "loop_trace 5 (fresh_locals line) pc L (Inr l)" by simp
  from loop_trace_no_cleanup[OF this] st_research_raised(1) show ?thesis
    by simp
next
  case (st_roadmap_raised line L l p res e)
  then have "loop_trace 5 (fresh_locals line) pc L (Inr l)" by simp
  from loop_trace_no_cleanup[OF this] st_roadmap_raised(1) show ?thesis
    by simp
next
  case (st_finished line L l p K res rm)
  then have K: "cleanup_trace K rs" by simp
  then have "K \<noteq> [] \<and> in_cleanup (last K)"
    by (cases rule: cleanup_trace.cases) simp_all
  moreover from st_finished(1) assms(2) have "last (T0 @ [ev]) = last (
      banner_events @ [Input first_prompt (Inr line)] @ L @ research_events p (Inr res)
          @ roadmap_events p res (Inr rm) @ finish_events rm @ K)" by simp
  ultimately have "in_cleanup ev" by simp
  with assms(3) show ?thesis by simp
qed

subsection \<open>Runs that fail or are interrupted\<close>

lemma cleanup_closed:
  "cleanup_mcp world_closed (init cfg0)
     = (Inr (), (init cfg0)\<lparr>trace := trace (init cfg0)
                    @ [Invoke Cleanup_mcp [], Sleep (Inr ()), McpClose (Inl already_closed)]\<rparr>)"
  by (simp add: cleanup_mcp_def cleanup_try_def sleep_def close_def aexit_def emit_def Let_def
      world_closed_def world_complete_def already_closed_def)

lemma cleanup_unreachable:
  "cleanup_mcp world_unreachable (init cfg0)
     = (Inr (), (init cfg0)\<lparr>trace := trace (init cfg0)
                    @ [Invoke Cleanup_mcp [], Sleep (Inr ()), McpAexit (Inl network_down)]\<rparr>)"
  by (simp add: cleanup_mcp_def cleanup_try_def sleep_def close_def aexit_def emit_def Let_def
      world_unreachable_def world_complete_def network_down_def)

lemma cleanup_bare:
  "cleanup_mcp world_bare (init cfg0)
     = (Inr (), (init cfg0)\<lparr>trace := trace (init cfg0)
                    @ [Invoke Cleanup_mcp [], Sleep (Inr ())]\<rparr>)"
  by (simp add: cleanup_mcp_def cleanup_try_def sleep_def close_def aexit_def emit_def Let_def
      world_bare_def world_complete_def)

lemma main_world_timeout:
  "main cfg0 world_timeout
     = (Inr (), pre_timeout @ AgentRun ResearchAgent (research_query complete_reply) (Inl model_timeout)
                  # [Print (error_report model_timeout)])"
  by (simp add: run_defs log_defs world_timeout_def world_complete_def pre_timeout_def
      pre_research_def profile_loop_five complete_reply_marker model_timeout_def
      cong: sum.case_cong_weak prod.case_cong_weak if_weak_cong)

lemma main_world_interrupt:
  "main cfg0 world_interrupt = (Inr (), pre_interrupt @ interrupted_run # [Print farewell])"
  by (simp add: run_defs log_defs world_interrupt_def world_complete_def pre_interrupt_def
      interrupted_run_def profile_loop_five
      cong: sum.case_cong_weak prod.case_cong_weak if_weak_cong)

lemma main_world_late_interrupt:
  "main cfg0 world_late_interrupt
     = (Inr (), pre_late_interrupt @ McpClose (Inl KeyboardInterrupt) # [Print farewell])"
  by (simp add: run_defs log_defs world_late_interrupt_def world_complete_def
      pre_late_interrupt_def profile_loop_five complete_reply_marker
      cong: sum.case_cong_weak prod.case_cong_weak if_weak_cong)

lemma pre_interrupt_no_cleanup: "\<not> list_ex in_cleanup pre_interrupt"
  by (simp add: pre_interrupt_def)

subsection \<open>Configuration and transcript\<close>

lemma messages_distinct: "distinct [endpoint_missing, api_key_missing, deployment_missing]"
  by (simp add: endpoint_missing_def api_key_missing_def deployment_missing_def ascii_def)

lemma main_constructs: "Construct (ascii ''ChatAgent'') [ascii ''ProfileAgent''] \<in> set (snd (main cfg w))"
proof -
  obtain r tr where m: "main cfg w = (r, tr)" by (cases "main cfg w")
  from main_trace[OF m] m show ?thesis
    by (auto simp: init_events_def init_def)
qed

lemma environ_lookups:
  "environ_empty (ascii ''AZURE_OPENAI_ENDPOINT'') = None"
  "environ_blank_key (ascii ''AZURE_OPENAI_ENDPOINT'') = Some (ascii ''https://example.openai.azure.com/'')"
  "environ_blank_key (ascii ''AZURE_OPENAI_API_KEY'') = Some []"
  "environ_no_deployment (ascii ''AZURE_OPENAI_ENDPOINT'') = Some (ascii ''https://example.openai.azure.com/'')"
  "environ_no_deployment (ascii ''AZURE_OPENAI_API_KEY'') = Some (ascii ''secret'')"
  "environ_no_deployment (ascii ''AZURE_OPENAI_DEPLOYMENT_NAME'') = None"
  "environ_ok (ascii ''AZURE_OPENAI_ENDPOINT'') = Some (ascii ''https://example.openai.azure.com/'')"
  "environ_ok (ascii ''AZURE_OPENAI_API_KEY'') = Some (ascii ''secret'')"
  "environ_ok (ascii ''AZURE_OPENAI_DEPLOYMENT_NAME'') = Some (ascii ''gpt-4o'')"
  "environ_ok (ascii ''AZURE_OPENAI_API_VERSION'') = None"
  by (simp_all add: environ_empty_def environ_blank_key_def environ_no_deployment_def
      environ_ok_def ascii_def)

lemma ascii_nonempty [simp]: "ascii (c # cs) \<noteq> []"
  by (simp add: ascii_def)

lemma exchanges_transcript:
  "exchanges w us s = (Inr replies, s') \<Longrightarrow>
     length replies = length us \<and>
     profile_context s' = profile_context s @ concat (map2 exchange us replies)"
proof (induction us arbitrary: s replies)
  case Nil
  then show ?case by simp
next
  case (Cons u us)
  obtain g s1 where g: "gather_profile w u s = (g, s1)" by (cases "gather_profile w u s")
  with Cons.prems obtain reply where reply: "g = Inr reply" by (cases g) auto
  obtain x s2 where x: "exchanges w us s1 = (x, s2)" by (cases "exchanges w us s1")
  with Cons.prems g reply obtain rest where rest: "x = Inr rest" "replies = reply # rest" "s' = s2"
    by (cases x) auto
  from Cons.IH[of s1 rest] x rest
  have "length rest = length us"
    "profile_context s' = profile_context s1 @ concat (map2 exchange us rest)" by simp_all
  with gather_profile_context(1)[OF g] reply rest(2) show ?case by simp
qed

lemma exchanges_world_blank:
  "exchanges world_blank [goal_line, blank_line] (init cfg0)
     = (Inr [question, question],
        (init cfg0)\<lparr>profile_context := exchange goal_line question @ exchange blank_line question,
                    trace := trace (init cfg0)
                      @ gather_events [] goal_line (Inr question)
                      @ gather_events (exchange goal_line question) blank_line (Inr question)\<rparr>)"
  by (simp add: gather_profile_def run_agent_def emit_def Let_def world_blank_def exchange_def
      gather_events_def gather_header_def init_def)

lemma main_world_chatty_counts:
  "length (filter is_gather_call (snd (main cfg0 world_chatty))) = 5"
  "length (filter is_profile_request (snd (main cfg0 world_chatty))) = 5"
  by (simp_all add: run_defs world_chatty_def profile_loop_five
      question_no_marker goal_line_not_blank
      cong: sum.case_cong_weak prod.case_cong_weak if_weak_cong)

lemma exchanges_append_only:
  "exchanges w us s = (r, s') \<Longrightarrow> \<exists>new. profile_context s' = profile_context s @ new"
proof (induction us arbitrary: s r s')
  case Nil
  then show ?case by simp
next
  case (Cons u us)
  obtain g s1 where g: "gather_profile w u s = (g, s1)" by (cases "gather_profile w u s")
  from gather_profile_context(1)[OF g] obtain n1 where
    n1: "profile_context s1 = profile_context s @ n1" by blast
  show ?case
  proof (cases g)
    case (Inl e)
    with Cons.prems g n1 show ?thesis by auto
  next
    case (Inr reply)
    obtain x s2 where x: "exchanges w us s1 = (x, s2)" by (cases "exchanges w us s1")
    from Cons.IH[OF x] obtain n2 where "profile_context s2 = profile_context s1 @ n2" by blast
    with n1 have "profile_context s2 = profile_context s @ (n1 @ n2)" by simp
    moreover from Cons.prems g Inr x have "s' = s2" by (cases x) auto
    ultimately show ?thesis by blast
  qed
qed

subsection \<open>Exceptions outside Exception\<close>

lemma cleanup_cancelled:
  "cleanup_mcp world_cancelled_close (init cfg0)
     = (Inl cancelled, (init cfg0)\<lparr>trace := trace (init cfg0)
                    @ [Invoke Cleanup_mcp [], Sleep (Inr ()), McpClose (Inl cancelled)]\<rparr>)"
  by (simp add: cleanup_mcp_def cleanup_try_def sleep_def close_def aexit_def emit_def Let_def
      world_cancelled_close_def world_complete_def cancelled_def)

lemma cleanup_late_interrupt:
  "cleanup_mcp world_late_interrupt (init cfg0)
     = (Inl KeyboardInterrupt, (init cfg0)\<lparr>trace := trace (init cfg0)
                    @ [Invoke Cleanup_mcp [], Sleep (Inr ()), McpClose (Inl KeyboardInterrupt)]\<rparr>)"
  by (simp add: cleanup_mcp_def cleanup_try_def sleep_def close_def aexit_def emit_def Let_def
      world_late_interrupt_def world_complete_def)

lemma main_world_cancelled_research:
  "main cfg0 world_cancelled_research
     = (Inl cancelled,
        pre_timeout @ AgentRun ResearchAgent (research_query complete_reply) (Inl cancelled) # [])"
  by (simp add: run_defs log_defs world_cancelled_research_def world_complete_def pre_timeout_def
      pre_research_def profile_loop_five complete_reply_marker cancelled_def
      cong: sum.case_cong_weak prod.case_cong_weak if_weak_cong)

section \<open>The claims\<close>

text \<open>
  C1. In every session the profile-collection loop makes at most 5 calls to
  \<open>gather_profile\<close> and at most 5 requests to the Profile Agent, whatever the
  replies and the inputs are: the log of any run of \<open>main\<close>, in any world, holds
  at most 5 invocations of \<open>gather_profile\<close> and at most 5 \<open>ProfileAgent\<close> runs.
\<close>

theorem profile_loop_at_most_five_iterations:
  "length (filter is_gather_call (snd (main cfg w))) \<le> 5 \<and>
   length (filter is_profile_request (snd (main cfg w))) \<le> 5"
proof -
  obtain r tr where m: "main cfg w = (r, tr)" by (cases "main cfg w")
  from main_trace[OF m] obtain T rs where
    T: "session_trace [] T rs" "tr = init_events cfg @ T @ top_level_events rs"
    by blast
  from session_trace_count[OF T(1)] T(2) m show ?thesis by simp
qed

theorem five_iterations_witness:
  "length (filter is_gather_call (snd (main cfg0 world_chatty))) = 5 \<and>
   length (filter is_profile_request (snd (main cfg0 world_chatty))) = 5 \<and>
   length (filter is_gather_call (snd (main cfg0 world_chatty))) \<le> 5 \<and>
   length (filter is_profile_request (snd (main cfg0 world_chatty))) \<le> 5"
  using profile_loop_at_most_five_iterations[of cfg0 world_chatty] main_world_chatty_counts
  by simp

text \<open>
  C2. If the human answers a follow-up prompt of the profile-collection loop with an empty
  or whitespace-only line, the loop ends on that iteration: nothing after that input in the
  log is a \<open>gather_profile\<close> invocation or a Profile Agent request, and the next two
  events are the assignment of the profile and the invocation of the researcher.
\<close>

theorem blank_follow_up_ends_profile_loop:
  assumes "snd (main cfg w) = pre @ Input follow_up_prompt (Inr line) # post"
    and "list_all isspace line"
  shows "filter is_gather_call post = [] \<and> filter is_profile_request post = [] \<and>
         (\<exists>p rest. post = SetContext (ascii ''user_profile'') (Str p)
                            # Invoke Research_learning_path [p] # rest)"
proof -
  obtain r tr where m: "main cfg w = (r, tr)" by (cases "main cfg w")
  have P: "blank_follow_up (Input follow_up_prompt (Inr line))"
    using assms(2) by (simp add: strip_empty_iff)
  from assms(1) m have eq: "tr = pre @ Input follow_up_prompt (Inr line) # post" by simp
  from main_split[where P = blank_follow_up, OF m eq P] obtain T rs pre' post' where
    T: "session_trace [] T rs" "T = pre' @ Input follow_up_prompt (Inr line) # post'"
       "post = post' @ top_level_events rs"
    by auto
  from session_blank_located[OF T(1,2) P] obtain p r2 rest where
    r: "post' = research_events p r2 @ rest"
       "\<forall>z\<in>set rest. \<not> is_gather_call z \<and> \<not> is_profile_request z"
    by blast
  from r(2) have "filter is_gather_call rest = []" "filter is_profile_request rest = []"
    by (auto intro: filter_empty_if)
  with T(3) r(1) show ?thesis
    by (simp add: research_events_def)
qed

theorem blank_follow_up_witness:
  "snd (main cfg0 world_blank) = pre_blank @ Input follow_up_prompt (Inr blank_line) # post_blank \<and>
   list_all isspace blank_line \<and>
   filter is_gather_call post_blank = [] \<and> filter is_profile_request post_blank = [] \<and>
   (\<exists>p rest. post_blank = SetContext (ascii ''user_profile'') (Str p)
                              # Invoke Research_learning_path [p] # rest)"
proof -
  have run: "snd (main cfg0 world_blank)
               = pre_blank @ Input follow_up_prompt (Inr blank_line) # post_blank"
    by (simp add: main_world_blank)
  have blank: "list_all isspace blank_line"
    by (simp add: blank_line_def ascii_def isspace_def)
  from blank_follow_up_ends_profile_loop[OF run blank] run blank show ?thesis by simp
qed



text \<open>
  C4. The profile text handed to \<open>research_learning_path\<close> is the first Profile Agent
  reply that contains \<open>PROFILE_COMPLETE\<close> if there is one, and the last reply otherwise
  (the loop ended after 5 iterations or on an empty input). No reply before the last one
  contains the marker: the loop exits as soon as it is detected. The replies are the
  successful \<open>ProfileAgent\<close> runs logged before the research invocation.
\<close>

theorem research_gets_first_complete_reply_else_last:
  assumes "snd (main cfg w) = pre @ Invoke Research_learning_path args # post"
  shows "profile_replies pre \<noteq> [] \<and>
         args = [case find (contains PROFILE_COMPLETE) (profile_replies pre) of
                   Some reply \<Rightarrow> reply
                 | None \<Rightarrow> last (profile_replies pre)] \<and>
         list_all (\<lambda>reply. \<not> contains PROFILE_COMPLETE reply) (butlast (profile_replies pre))"
proof -
  obtain r tr where m: "main cfg w = (r, tr)" by (cases "main cfg w")
  from main_split[OF m, of pre _ post is_research_call] assms m obtain T rs pre' post' where
    T: "session_trace [] T rs" "T = pre' @ Invoke Research_learning_path args # post'"
       "pre = init_events cfg @ pre'"
    by auto
  from session_research_located[OF T(1,2)] obtain line L l where
    L: "loop_trace 5 (fresh_locals line) [] L (Inr l)"
       "pre' = banner_events @ [Input first_prompt (Inr line)] @ L
                 @ [SetContext (ascii ''user_profile'') (Str (last (profile_replies L)))]"
       "args = [last (profile_replies L)]"
    by blast
  from T(3) L(2) have rp: "profile_replies pre = profile_replies L" by simp
  from loop_trace_nonempty[of 4 "fresh_locals line" "[]" L l] L(1)
  have ne: "profile_replies L \<noteq> []" by (simp add: five_Suc[symmetric])
  from loop_trace_replies[OF L(1) refl]
  have nm: "\<forall>reply\<in>set (butlast (profile_replies L)). \<not> contains PROFILE_COMPLETE reply"
    by simp
  from find_else_last[OF ne nm] ne nm L(3) show ?thesis
    unfolding rp by (auto simp: list_all_iff split: option.splits)
qed

theorem research_profile_witness:
  "snd (main cfg0 world_complete)
     = pre_research @ Invoke Research_learning_path [complete_reply] # post_research \<and>
   profile_replies pre_research = [complete_reply] \<and>
   contains PROFILE_COMPLETE complete_reply \<and>
   snd (main cfg0 world_blank)
     = pre_fallback @ Invoke Research_learning_path [question] # post_fallback \<and>
   profile_replies pre_fallback = [question] \<and>
   \<not> contains PROFILE_COMPLETE question \<and>
   [complete_reply] = [case find (contains PROFILE_COMPLETE) (profile_replies pre_research) of
                         Some reply \<Rightarrow> reply
                       | None \<Rightarrow> last (profile_replies pre_research)] \<and>
   [question] = [case find (contains PROFILE_COMPLETE) (profile_replies pre_fallback) of
                   Some reply \<Rightarrow> reply
                 | None \<Rightarrow> last (profile_replies pre_fallback)]"
proof -
  note a = research_gets_first_complete_reply_else_last[OF research_in_trace_complete]
  note b = research_gets_first_complete_reply_else_last[OF research_in_trace_blank]
  from a b research_in_trace_complete research_in_trace_blank
    profile_replies_pre_research profile_replies_pre_fallback
    complete_reply_marker question_no_marker
  show ?thesis by blast
qed

text \<open>
  C5, as stated, fails: when Ctrl+C arrives while the Profile Agent is awaited, the session
  ends with the farewell and the release of the search tool is never attempted (no
  \<open>_cleanup_mcp\<close> invocation, no pause, no \<open>close\<close> in the log).
\<close>

theorem interrupt_skips_cleanup_counterexample:
  "snd (main cfg0 world_interrupt) = pre_interrupt @ interrupted_run # [Print farewell] \<and>
   raised interrupted_run = Some KeyboardInterrupt \<and>
   \<not> list_ex in_cleanup (snd (main cfg0 world_interrupt))"
  by (simp add: main_world_interrupt pre_interrupt_no_cleanup interrupted_run_def farewell_def)

text \<open>
  C5, amended. When a \<open>KeyboardInterrupt\<close> is raised at any suspension point of the
  session (an \<open>input\<close>, an agent run, the pause or the release inside \<open>_cleanup_mcp\<close>),
  it propagates out of \<open>run_interactive_session\<close> uncaught, \<open>_cleanup_mcp\<close> included (its
  handler catches \<open>Exception\<close> only), and is caught only by \<open>main\<close>, which prints the
  farewell, reports no error and returns normally. Nothing else happens after the
  interrupt: no release of the search tool follows it, and when the interrupt arrives
  outside \<open>_cleanup_mcp\<close> the log holds no cleanup event at all.
\<close>

theorem interrupt_caught_only_at_top_level:
  assumes "main cfg w = (r, pre @ ev # post)" and "raised ev = Some KeyboardInterrupt"
  shows "fst (run_interactive_session w (init cfg)) = Inl KeyboardInterrupt \<and>
         trace (snd (run_interactive_session w (init cfg))) = pre @ [ev] \<and>
         r = Inr () \<and> post = [Print farewell] \<and>
         (\<not> in_cleanup ev \<longrightarrow> \<not> list_ex in_cleanup (pre @ ev # post))"
proof -
  from raised_uncaught[OF assms(2)] have u: "uncaught ev = Some KeyboardInterrupt" by simp
  note mu = main_uncaught[OF assms(1) refl u]
  from mu(1) have 1: "fst (run_interactive_session w (init cfg)) = Inl KeyboardInterrupt"
    by (metis fst_conv)
  from mu(3,4) have 2: "r = Inr ()" "post = [Print farewell]" by simp_all
  have 3: "\<not> list_ex in_cleanup (pre @ ev # post)" if "\<not> in_cleanup ev"
  proof -
    from mu(5) obtain T0 where
      T0: "pre = init_events cfg @ T0" "session_trace [] (T0 @ [ev]) (Inl KeyboardInterrupt)"
      by blast
    from session_no_cleanup[OF T0(2) refl that] T0(1) 2(2) show ?thesis by simp
  qed
  from 1 mu(2) 2 3 show ?thesis by blast
qed

theorem interrupt_witness:
  "main cfg0 world_interrupt = (Inr (), pre_interrupt @ interrupted_run # [Print farewell]) \<and>
   raised interrupted_run = Some KeyboardInterrupt \<and> \<not> in_cleanup interrupted_run \<and>
   fst (run_interactive_session world_interrupt (init cfg0)) = Inl KeyboardInterrupt \<and>
   \<not> list_ex in_cleanup (pre_interrupt @ interrupted_run # [Print farewell]) \<and>
   main cfg0 world_late_interrupt
     = (Inr (), pre_late_interrupt @ McpClose (Inl KeyboardInterrupt) # [Print farewell]) \<and>
   fst (run_interactive_session world_late_interrupt (init cfg0)) = Inl KeyboardInterrupt"
proof -
  have a: "raised interrupted_run = Some KeyboardInterrupt" "\<not> in_cleanup interrupted_run"
    by (simp_all add: interrupted_run_def)
  have b: "raised (McpClose (Inl KeyboardInterrupt)) = Some KeyboardInterrupt" by simp
  from interrupt_caught_only_at_top_level[OF main_world_interrupt a(1)]
    interrupt_caught_only_at_top_level[OF main_world_late_interrupt b]
    a main_world_interrupt main_world_late_interrupt
  show ?thesis by blast
qed

text \<open>
  C6, as stated, fails: when the task is cancelled, or Ctrl+C arrives, while \<open>close\<close> is
  awaited, \<open>_cleanup_mcp\<close> raises the \<open>CancelledError\<close>, or the \<open>KeyboardInterrupt\<close>,
  to its caller: the handler \<open>except Exception\<close> does not catch them.
\<close>

theorem cleanup_mcp_raises_counterexample:
  "cleanup_mcp world_cancelled_close (init cfg0)
     = (Inl cancelled, (init cfg0)\<lparr>trace := trace (init cfg0)
                    @ [Invoke Cleanup_mcp [], Sleep (Inr ()), McpClose (Inl cancelled)]\<rparr>) \<and>
   cleanup_mcp world_late_interrupt (init cfg0)
     = (Inl KeyboardInterrupt, (init cfg0)\<lparr>trace := trace (init cfg0)
                    @ [Invoke Cleanup_mcp [], Sleep (Inr ()), McpClose (Inl KeyboardInterrupt)]\<rparr>)"
  by (simp add: cleanup_cancelled cleanup_late_interrupt)

text \<open>
  C6, amended. \<open>_cleanup_mcp\<close> never raises an instance of \<open>Exception\<close> to its caller:
  whichever of \<open>close\<close> and \<open>__aexit__\<close> the tool has (both, one or none), every
  exception that the pause or the release raises and that is an instance of \<open>Exception\<close>
  (connection already closed, network down) is swallowed, and when nothing else is raised
  the method returns normally. An exception outside \<open>Exception\<close> raised there
  (\<open>KeyboardInterrupt\<close>, \<open>asyncio.CancelledError\<close>) is not swallowed: the method raises
  that very exception to its caller, and the raising call is the last thing it did.
  \<open>K\<close> is what the call added to the log.
\<close>

theorem cleanup_mcp_swallows_exception_instances_only:
  assumes "cleanup_mcp w s = (r, s')" and "trace s' = trace s @ K"
  shows "((\<forall>ev\<in>set K. \<forall>e. raised ev = Some e \<longrightarrow> isinstance_Exception e) \<longrightarrow> r = Inr ()) \<and>
         (\<forall>e. r = Inl e \<longrightarrow> \<not> isinstance_Exception e) \<and>
         (\<forall>ev\<in>set K. \<forall>e. raised ev = Some e \<and> \<not> isinstance_Exception e \<longrightarrow>
            r = Inl e \<and> ev = last K)"
proof -
  from cleanup_mcp_trace[OF assms(1)] assms(2) have "cleanup_trace K r" by auto
  then show ?thesis
  proof (cases rule: cleanup_trace.cases)
    case (ct_sleep_raised e)
    then show ?thesis by auto
  next
    case (ct_close o2)
    then show ?thesis by (cases o2) auto
  next
    case (ct_aexit o2)
    then show ?thesis by (cases o2) auto
  next
    case ct_neither
    then show ?thesis by simp
  qed
qed

theorem cleanup_mcp_witness:
  "fst (cleanup_mcp world_closed (init cfg0)) = Inr () \<and>
   trace (snd (cleanup_mcp world_closed (init cfg0)))
     = trace (init cfg0) @ [Invoke Cleanup_mcp [], Sleep (Inr ()), McpClose (Inl already_closed)] \<and>
   isinstance_Exception already_closed \<and>
   fst (cleanup_mcp world_unreachable (init cfg0)) = Inr () \<and>
   trace (snd (cleanup_mcp world_unreachable (init cfg0)))
     = trace (init cfg0) @ [Invoke Cleanup_mcp [], Sleep (Inr ()), McpAexit (Inl network_down)] \<and>
   isinstance_Exception network_down \<and>
   fst (cleanup_mcp world_bare (init cfg0)) = Inr () \<and>
   trace (snd (cleanup_mcp world_bare (init cfg0)))
     = trace (init cfg0) @ [Invoke Cleanup_mcp [], Sleep (Inr ())] \<and>
   fst (cleanup_mcp world_cancelled_close (init cfg0)) = Inl cancelled \<and>
   trace (snd (cleanup_mcp world_cancelled_close (init cfg0)))
     = trace (init cfg0) @ [Invoke Cleanup_mcp [], Sleep (Inr ()), McpClose (Inl cancelled)] \<and>
   \<not> isinstance_Exception cancelled"
proof -
  have t1: "trace (snd (cleanup_mcp world_closed (init cfg0)))
     = trace (init cfg0) @ [Invoke Cleanup_mcp [], Sleep (Inr ()), McpClose (Inl already_closed)]"
    by (simp add: cleanup_closed)
  have t2: "trace (snd (cleanup_mcp world_unreachable (init cfg0)))
     = trace (init cfg0) @ [Invoke Cleanup_mcp [], Sleep (Inr ()), McpAexit (Inl network_down)]"
    by (simp add: cleanup_unreachable)
  have t3: "trace (snd (cleanup_mcp world_bare (init cfg0)))
     = trace (init cfg0) @ [Invoke Cleanup_mcp [], Sleep (Inr ())]"
    by (simp add: cleanup_bare)
  have t4: "trace (snd (cleanup_mcp world_cancelled_close (init cfg0)))
     = trace (init cfg0) @ [Invoke Cleanup_mcp [], Sleep (Inr ()), McpClose (Inl cancelled)]"
    by (simp add: cleanup_cancelled)
  have i1: "isinstance_Exception already_closed" by (simp add: already_closed_def)
  have i2: "isinstance_Exception network_down" by (simp add: network_down_def)
  have i4: "\<not> isinstance_Exception cancelled" by (simp add: cancelled_def)
  from cleanup_mcp_swallows_exception_instances_only[OF prod.collapse[symmetric] t1] i1
  have 1: "fst (cleanup_mcp world_closed (init cfg0)) = Inr ()" by simp
  from cleanup_mcp_swallows_exception_instances_only[OF prod.collapse[symmetric] t2] i2
  have 2: "fst (cleanup_mcp world_unreachable (init cfg0)) = Inr ()" by simp
  from cleanup_mcp_swallows_exception_instances_only[OF prod.collapse[symmetric] t3]
  have 3: "fst (cleanup_mcp world_bare (init cfg0)) = Inr ()" by simp
  from cleanup_mcp_swallows_exception_instances_only[OF prod.collapse[symmetric] t4] i4
  have 4: "fst (cleanup_mcp world_cancelled_close (init cfg0)) = Inl cancelled" by simp
  from 1 2 3 4 t1 t2 t3 t4 i1 i2 i4 show ?thesis by simp
qed

text \<open>
  C7, as stated, fails: when the task is cancelled while the Research Agent is awaited, the
  \<open>CancelledError\<close> propagates out of the orchestrator, but \<open>main\<close> neither catches nor
  reports it: \<open>main\<close> raises it and nothing is printed after the failing request.
\<close>

theorem unreported_stage_exception_counterexample:
  "main cfg0 world_cancelled_research
     = (Inl cancelled,
        pre_timeout @ AgentRun ResearchAgent (research_query complete_reply) (Inl cancelled) # [])"
  by (rule main_world_cancelled_research)

text \<open>
  C7, amended. An exception raised inside the three stages, by an agent run or by
  \<open>input\<close>, propagates unmodified out of \<open>run_interactive_session\<close>: the session raises
  that very exception and the raising call is its last event, so no Session Result is
  returned. What the top-level entry point does depends on the class of the exception.
  An instance of \<open>Exception\<close> is reported: \<open>main\<close> prints a newline, the cross mark,
  \<open>Error:\<close> and \<open>str(e)\<close>, and returns. A \<open>KeyboardInterrupt\<close> is answered by the
  farewell. Any other exception (\<open>asyncio.CancelledError\<close>, \<open>SystemExit\<close>) is not caught:
  \<open>main\<close> raises it and prints nothing. In every case, when the Research Agent raised
  the exception the log holds no \<open>create_roadmap\<close> invocation and no Advisor Agent run.
\<close>

theorem stage_exception_propagates_to_top_level:
  assumes "main cfg w = (r, pre @ ev # post)"
    and "raised ev = Some e" and "\<not> in_cleanup ev"
  shows "fst (run_interactive_session w (init cfg)) = Inl e \<and>
         trace (snd (run_interactive_session w (init cfg))) = pre @ [ev] \<and>
         (\<forall>m. e = Exception m \<or> e = ValueError m \<longrightarrow>
            r = Inr () \<and> post = [Print ([10, 10060] @ ascii '' Error: '' @ m)]) \<and>
         (e = KeyboardInterrupt \<longrightarrow>
            r = Inr () \<and>
            post = [Print ([10, 10, 128075] @ ascii '' Good luck on your learning journey!'')]) \<and>
         (\<forall>m. e = BaseException m \<longrightarrow> r = Inl e \<and> post = []) \<and>
         ((\<exists>q. ev = AgentRun ResearchAgent q (Inl e)) \<longrightarrow>
            \<not> list_ex is_roadmap_event (pre @ ev # post))"
proof -
  from raised_uncaught[OF assms(2)] assms(3) have u: "uncaught ev = Some e" by simp
  note mu = main_uncaught[OF assms(1) refl u]
  from mu(1) have 1: "fst (run_interactive_session w (init cfg)) = Inl e"
    by (metis fst_conv)
  have 3: "\<forall>m. e = Exception m \<or> e = ValueError m \<longrightarrow>
             r = Inr () \<and> post = [Print ([10, 10060] @ ascii '' Error: '' @ m)]"
    using mu(3,4) by (auto simp: error_report_def nl_def)
  have 4: "e = KeyboardInterrupt \<longrightarrow>
             r = Inr () \<and>
             post = [Print ([10, 10, 128075] @ ascii '' Good luck on your learning journey!'')]"
    using mu(3,4) by (auto simp: farewell_def nl_def)
  have 5: "\<forall>m. e = BaseException m \<longrightarrow> r = Inl e \<and> post = []"
    using mu(3,4) by auto
  have 6: "\<not> list_ex is_roadmap_event (pre @ ev # post)" if "ev = AgentRun ResearchAgent q (Inl e)" for q
  proof -
    from mu(5) obtain T0 where T0: "pre = init_events cfg @ T0" "session_trace [] (T0 @ [ev]) (Inl e)"
      by blast
    from session_stages_sorted[OF T0(2)] that
    have "\<not> list_ex is_roadmap_event (T0 @ [ev])"
      by (intro no_roadmap_before_stage_two) simp_all
    with T0(1) mu(3) init_events_no_roadmap[of cfg] top_level_events_no_roadmap[of "Inl e"]
    show ?thesis by simp
  qed
  from 1 mu(2) 3 4 5 6 show ?thesis by blast
qed

theorem stage_exception_witness:
  "main cfg0 world_timeout
     = (Inr (), pre_timeout @ AgentRun ResearchAgent (research_query complete_reply) (Inl model_timeout)
                  # [Print ([10, 10060] @ ascii '' Error: '' @ ascii ''request timed out'')]) \<and>
   model_timeout = Exception (ascii ''request timed out'') \<and>
   fst (run_interactive_session world_timeout (init cfg0)) = Inl model_timeout \<and>
   trace (snd (run_interactive_session world_timeout (init cfg0)))
     = pre_timeout @ [AgentRun ResearchAgent (research_query complete_reply) (Inl model_timeout)] \<and>
   \<not> list_ex is_roadmap_event
       (pre_timeout @ AgentRun ResearchAgent (research_query complete_reply) (Inl model_timeout)
          # [Print (error_report model_timeout)]) \<and>
   main cfg0 world_interrupt
     = (Inr (), pre_interrupt @ interrupted_run
                  # [Print ([10, 10, 128075] @ ascii '' Good luck on your learning journey!'')]) \<and>
   main cfg0 world_cancelled_research
     = (Inl cancelled,
        pre_timeout @ AgentRun ResearchAgent (research_query complete_reply) (Inl cancelled) # []) \<and>
   cancelled = BaseException (ascii ''CancelledError'') \<and>
   fst (run_interactive_session world_cancelled_research (init cfg0)) = Inl cancelled"
proof -
  have a: "raised (AgentRun ResearchAgent (research_query complete_reply) (Inl model_timeout))
          = Some model_timeout"
     "\<not> in_cleanup (AgentRun ResearchAgent (research_query complete_reply) (Inl model_timeout))"
    by simp_all
  have b: "raised interrupted_run = Some KeyboardInterrupt" "\<not> in_cleanup interrupted_run"
    by (simp_all add: interrupted_run_def)
  have c: "raised (AgentRun ResearchAgent (research_query complete_reply) (Inl cancelled))
          = Some cancelled"
     "\<not> in_cleanup (AgentRun ResearchAgent (research_query complete_reply) (Inl cancelled))"
    by simp_all
  note t = stage_exception_propagates_to_top_level[OF main_world_timeout a]
  note i = stage_exception_propagates_to_top_level[OF main_world_interrupt b]
  note x = stage_exception_propagates_to_top_level[OF main_world_cancelled_research c]
  have m: "model_timeout = Exception (ascii ''request timed out'')" by (simp add: model_timeout_def)
  have k: "cancelled = BaseException (ascii ''CancelledError'')" by (simp add: cancelled_def)
  from t m have t1: "[Print (error_report model_timeout)]
      = [Print ([10, 10060] @ ascii '' Error: '' @ ascii ''request timed out'')]" by blast
  from i have i1: "[Print farewell]
      = [Print ([10, 10, 128075] @ ascii '' Good luck on your learning journey!'')]" by blast
  from t have t2: "fst (run_interactive_session world_timeout (init cfg0)) = Inl model_timeout"
    and t3: "trace (snd (run_interactive_session world_timeout (init cfg0)))
     = pre_timeout @ [AgentRun ResearchAgent (research_query complete_reply) (Inl model_timeout)]"
    and t4: "\<not> list_ex is_roadmap_event
       (pre_timeout @ AgentRun ResearchAgent (research_query complete_reply) (Inl model_timeout)
          # [Print (error_report model_timeout)])"
    by blast+
  from x have x1: "fst (run_interactive_session world_cancelled_research (init cfg0)) = Inl cancelled"
    by blast
  from main_world_timeout t1 have r1: "main cfg0 world_timeout
     = (Inr (), pre_timeout @ AgentRun ResearchAgent (research_query complete_reply) (Inl model_timeout)
                  # [Print ([10, 10060] @ ascii '' Error: '' @ ascii ''request timed out'')])"
    by simp
  from main_world_interrupt i1 have r2: "main cfg0 world_interrupt
     = (Inr (), pre_interrupt @ interrupted_run
                  # [Print ([10, 10, 128075] @ ascii '' Good luck on your learning journey!'')])"
    by simp
  from r1 m t2 t3 t4 r2 main_world_cancelled_research k x1 show ?thesis by blast
qed

text \<open>
  C8. Each of the three required settings (endpoint URL, API key, deployment name) is
  checked to be present and non-empty by the module-level code, before \<open>main\<close> runs and
  so before any client, tool or agent is constructed: when one is missing or empty the
  script raises \<open>ValueError\<close> with the message of the first such setting and its log is
  empty; the three messages are different. When all three are set the configuration
  holds their values, and the API version is the environment's value, or the literal
  \<open>2025-01-01-preview\<close> when the variable is unset. Any construction in the log of the
  script implies that all three settings were present and non-empty.
\<close>

theorem configuration_validated_before_any_agent:
  "(\<not> truthy (environ (ascii ''AZURE_OPENAI_ENDPOINT'')) \<longrightarrow>
      script environ w = (Inl (ValueError endpoint_missing), [])) \<and>
   (truthy (environ (ascii ''AZURE_OPENAI_ENDPOINT'')) \<and>
    \<not> truthy (environ (ascii ''AZURE_OPENAI_API_KEY'')) \<longrightarrow>
      script environ w = (Inl (ValueError api_key_missing), [])) \<and>
   (truthy (environ (ascii ''AZURE_OPENAI_ENDPOINT'')) \<and>
    truthy (environ (ascii ''AZURE_OPENAI_API_KEY'')) \<and>
    \<not> truthy (environ (ascii ''AZURE_OPENAI_DEPLOYMENT_NAME'')) \<longrightarrow>
      script environ w = (Inl (ValueError deployment_missing), [])) \<and>
   distinct [endpoint_missing, api_key_missing, deployment_missing] \<and>
   (truthy (environ (ascii ''AZURE_OPENAI_ENDPOINT'')) \<and>
    truthy (environ (ascii ''AZURE_OPENAI_API_KEY'')) \<and>
    truthy (environ (ascii ''AZURE_OPENAI_DEPLOYMENT_NAME'')) \<longrightarrow>
      module_config environ =
        Inr \<lparr>AZURE_ENDPOINT = the (environ (ascii ''AZURE_OPENAI_ENDPOINT'')),
             AZURE_API_KEY = the (environ (ascii ''AZURE_OPENAI_API_KEY'')),
             DEPLOYMENT_NAME = the (environ (ascii ''AZURE_OPENAI_DEPLOYMENT_NAME'')),
             API_VERSION = (case environ (ascii ''AZURE_OPENAI_API_VERSION'') of
                              None \<Rightarrow> ascii ''2025-01-01-preview''
                            | Some v \<Rightarrow> v)\<rparr>) \<and>
   ((\<exists>c a. Construct c a \<in> set (snd (script environ w))) \<longrightarrow>
      truthy (environ (ascii ''AZURE_OPENAI_ENDPOINT'')) \<and>
      truthy (environ (ascii ''AZURE_OPENAI_API_KEY'')) \<and>
      truthy (environ (ascii ''AZURE_OPENAI_DEPLOYMENT_NAME'')))"
  using messages_distinct
  by (auto simp: script_def module_config_def Let_def getenv_default_def default_api_version_def
      split: option.splits)

theorem configuration_witness:
  "script environ_empty world_complete = (Inl (ValueError endpoint_missing), []) \<and>
   script environ_blank_key world_complete = (Inl (ValueError api_key_missing), []) \<and>
   script environ_no_deployment world_complete = (Inl (ValueError deployment_missing), []) \<and>
   module_config environ_ok = Inr cfg0 \<and>
   API_VERSION cfg0 = ascii ''2025-01-01-preview'' \<and>
   Construct (ascii ''ChatAgent'') [ascii ''ProfileAgent'']
     \<in> set (snd (script environ_ok world_complete))"
proof -
  note c1 = configuration_validated_before_any_agent[of environ_empty world_complete]
  note c2 = configuration_validated_before_any_agent[of environ_blank_key world_complete]
  note c3 = configuration_validated_before_any_agent[of environ_no_deployment world_complete]
  note c4 = configuration_validated_before_any_agent[of environ_ok world_complete]
  from c1 have 1: "script environ_empty world_complete = (Inl (ValueError endpoint_missing), [])"
    by (simp add: environ_lookups)
  from c2 have 2: "script environ_blank_key world_complete = (Inl (ValueError api_key_missing), [])"
    by (simp add: environ_lookups)
  from c3 have 3: "script environ_no_deployment world_complete = (Inl (ValueError deployment_missing), [])"
    by (simp add: environ_lookups)
  from c4 have 4: "module_config environ_ok = Inr cfg0"
    by (simp add: environ_lookups cfg0_def default_api_version_def)
  have 5: "API_VERSION cfg0 = ascii ''2025-01-01-preview''"
    by (simp add: cfg0_def default_api_version_def)
  from 4 have 6: "Construct (ascii ''ChatAgent'') [ascii ''ProfileAgent'']
     \<in> set (snd (script environ_ok world_complete))"
    by (simp add: script_def main_constructs)
  from 1 2 3 4 5 6 show ?thesis by simp
qed

text \<open>
  C9. After any sequence of \<open>N\<close> profile-collection exchanges the transcript held by the
  Profile Collector is the transcript before them followed by one user entry and one agent
  entry per exchange, in order: it is longer by exactly \<open>2N\<close>, so a transcript that
  starts empty, as \<open>__init__\<close> leaves it, has length \<open>2N\<close>. Entries are only ever
  appended: whatever the calls do, return or raise, the old transcript is a prefix of the
  new one.
\<close>

theorem transcript_grows_by_two_per_exchange:
  assumes "exchanges w us s = (r, s')"
  shows "take (length (profile_context s)) (profile_context s') = profile_context s \<and>
         (\<forall>replies. r = Inr replies \<longrightarrow>
            profile_context s' = profile_context s @ concat (map2 exchange us replies) \<and>
            length (profile_context s') = length (profile_context s) + 2 * length us \<and>
            (s = init cfg \<longrightarrow> length (profile_context s') = 2 * length us))"
proof (intro conjI allI impI)
  from exchanges_append_only[OF assms]
  show "take (length (profile_context s)) (profile_context s') = profile_context s" by auto
next
  fix replies assume r: "r = Inr replies"
  from exchanges_transcript[of w us s replies s'] assms r
  have l: "length replies = length us"
    and t: "profile_context s' = profile_context s @ concat (map2 exchange us replies)"
    by simp_all
  have "length (concat (map2 exchange xs ys)) = 2 * length xs" if "length ys = length xs" for xs ys
    using that by (induction xs ys rule: list_induct2') (simp_all add: exchange_def)
  with l t show len: "length (profile_context s') = length (profile_context s) + 2 * length us"
    by simp
  from t show "profile_context s' = profile_context s @ concat (map2 exchange us replies)" .
  assume "s = init cfg"
  with len show "length (profile_context s') = 2 * length us" by (simp add: init_def)
qed

theorem transcript_witness:
  "exchanges world_blank [goal_line, blank_line] (init cfg0)
     = (Inr [question, question],
        (init cfg0)\<lparr>profile_context := exchange goal_line question @ exchange blank_line question,
                    trace := trace (init cfg0)
                      @ gather_events [] goal_line (Inr question)
                      @ gather_events (exchange goal_line question) blank_line (Inr question)\<rparr>) \<and>
   length (exchange goal_line question @ exchange blank_line question) = 2 * 2"
proof -
  from transcript_grows_by_two_per_exchange[OF exchanges_world_blank, of cfg0]
  have "length (exchange goal_line question @ exchange blank_line question) = 2 * 2"
    by simp
  with exchanges_world_blank show ?thesis by simp
qed

text \<open>
  C10. The empty-input check applies only to follow-up inputs. Whatever line the first
  \<open>input\<close> returns, empty and whitespace-only lines included, it is passed to
  \<open>gather_profile\<close> and sent to the Profile Agent: in the log of any run, in any world, the
  events right after the first input are the invocation of \<open>gather_profile\<close> with that
  line, its progress message, and a \<open>ProfileAgent\<close> run on the transcript that holds just
  that line.
\<close>

theorem first_input_always_reaches_profile_agent:
  assumes "snd (main cfg w) = pre @ Input first_prompt (Inr line) # post"
  shows "\<exists>reply rest.
           post = Invoke Gather_profile [line]
                  # Print (nl @ ascii ''[1/3] UNDERSTANDING YOUR GOALS...'')
                  # AgentRun ProfileAgent (ascii ''User: '' @ line) reply
                  # rest"
proof -
  obtain r tr where m: "main cfg w = (r, tr)" by (cases "main cfg w")
  from assms m have eq: "tr = pre @ Input first_prompt (Inr line) # post" by simp
  have P: "is_first_input (Input first_prompt (Inr line))" by simp
  from main_split[where P = is_first_input, OF m eq P] obtain T rs pre' post' where
    T: "session_trace [] T rs" "T = pre' @ Input first_prompt (Inr line) # post'"
       "post = post' @ top_level_events rs"
    by auto
  from session_first_input[OF T(1,2)] T(3) show ?thesis
    by (auto simp: gather_events_def gather_header_def)
qed

theorem first_input_witness:
  "snd (main cfg0 world_silent)
     = (init_events cfg0 @ banner_events) @ Input first_prompt (Inr blank_line) # post_silent \<and>
   list_all isspace blank_line \<and>
   (\<exists>reply rest.
      post_silent = Invoke Gather_profile [blank_line]
                    # Print (nl @ ascii ''[1/3] UNDERSTANDING YOUR GOALS...'')
                    # AgentRun ProfileAgent (ascii ''User: '' @ blank_line) reply
                    # rest)"
proof -
  have run: "snd (main cfg0 world_silent)
     = (init_events cfg0 @ banner_events) @ Input first_prompt (Inr blank_line) # post_silent"
    by (simp add: main_world_silent)
  have blank: "list_all isspace blank_line"
    by (simp add: blank_line_def ascii_def isspace_def)
  from first_input_always_reaches_profile_agent[OF run] run blank show ?thesis by simp
qed

end
